theory Spec2Isabelle
  imports Complex_Main
begin

section \<open>Arrays\<close>

text \<open>
  The network of \<^verbatim>\<open>assignments/mp1/src/mnist.py\<close> computes on numpy arrays of
  floating-point numbers. An entry of an array is modelled as a real number, so every
  statement about arrays is about exact arithmetic: their rounding, overflow, \<^verbatim>\<open>inf\<close> and
  \<^verbatim>\<open>NaN\<close> are outside the model. The scalar that \<^verbatim>\<open>accuracy\<close> computes from integer
  counts is modelled in double precision. A two-dimensional array is its list of rows
  together with its number of columns, which is what tells a \<open>0 \<times> c\<close> array from a
  \<open>0 \<times> 0\<close> one. A one-dimensional array is a list. The exceptions the code can raise are values of \<open>error\<close>.
\<close>

datatype error = ValueError | IndexError | AttributeError | AssertionError | ZeroDivisionError

datatype matrix = Matrix (ncols: nat) (rows: "real list list")

definition nrows :: "matrix \<Rightarrow> nat" where
  "nrows m = length (rows m)"

text \<open>Every row of an array has the array's number of columns.\<close>

definition wf_matrix :: "matrix \<Rightarrow> bool" where
  "wf_matrix m = list_all (\<lambda>r. length r = ncols m) (rows m)"

text \<open>\<^verbatim>\<open>m[i, j]\<close>, read where \<open>i\<close> and \<open>j\<close> are in range.\<close>

definition entry :: "matrix \<Rightarrow> nat \<Rightarrow> nat \<Rightarrow> real" where
  "entry m i j = rows m ! i ! j"

text \<open>\<^verbatim>\<open>m[:, j]\<close>\<close>

definition col :: "matrix \<Rightarrow> nat \<Rightarrow> real list" where
  "col m j = map (\<lambda>r. r ! j) (rows m)"

text \<open>An elementwise function (\<^verbatim>\<open>np.exp\<close>, \<^verbatim>\<open>np.log\<close>, \<^verbatim>\<open>np.square\<close>, a scalar operand).\<close>

definition mmap :: "(real \<Rightarrow> real) \<Rightarrow> matrix \<Rightarrow> matrix" where
  "mmap f m = Matrix (ncols m) (map (map f) (rows m))"

text \<open>\<^verbatim>\<open>np.zeros((r, c))\<close>\<close>

definition zeros :: "nat \<Rightarrow> nat \<Rightarrow> matrix" where
  "zeros r c = Matrix c (replicate r (replicate c 0))"

text \<open>\<^verbatim>\<open>m.T\<close>\<close>

definition transposed :: "matrix \<Rightarrow> matrix" where
  "transposed m = Matrix (nrows m) (map (col m) [0..<ncols m])"

text \<open>
  \<^verbatim>\<open>a.dot(b)\<close>: numpy raises \<^verbatim>\<open>ValueError\<close> when the inner dimensions differ.
\<close>

definition dot :: "matrix \<Rightarrow> matrix \<Rightarrow> error + matrix" where
  "dot a b =
     (if ncols a \<noteq> nrows b then Inl ValueError
      else Inr (Matrix (ncols b)
        (map (\<lambda>r. map (\<lambda>j. sum_list (map2 (*) r (col b j))) [0..<ncols b]) (rows a))))"

text \<open>
  Broadcasting of a binary elementwise operator over two arrays: along each axis the
  lengths are equal or one of them is 1 (and is then repeated); otherwise numpy raises
  \<^verbatim>\<open>ValueError\<close>.
\<close>

definition bdim :: "nat \<Rightarrow> nat \<Rightarrow> error + nat" where
  "bdim a b =
     (if a = b then Inr a else if a = 1 then Inr b else if b = 1 then Inr a
      else Inl ValueError)"

definition stretch :: "nat \<Rightarrow> 'a list \<Rightarrow> 'a list" where
  "stretch n xs = (if length xs = n then xs else replicate n (hd xs))"

definition expand :: "nat \<Rightarrow> nat \<Rightarrow> matrix \<Rightarrow> matrix" where
  "expand r c m = Matrix c (map (stretch c) (stretch r (rows m)))"

definition bop :: "(real \<Rightarrow> real \<Rightarrow> real) \<Rightarrow> matrix \<Rightarrow> matrix \<Rightarrow> error + matrix" where
  "bop f a b =
     (case bdim (nrows a) (nrows b) of
        Inl e \<Rightarrow> Inl e
      | Inr r \<Rightarrow>
          (case bdim (ncols a) (ncols b) of
             Inl e \<Rightarrow> Inl e
           | Inr c \<Rightarrow>
               Inr (Matrix c
                 (map2 (map2 f) (rows (expand r c a)) (rows (expand r c b))))))"

text \<open>A one-dimensional array of length \<open>n\<close> broadcasts against a matrix as a \<open>1 \<times> n\<close> array.\<close>

definition row_vector :: "real list \<Rightarrow> matrix" where
  "row_vector v = Matrix (length v) [v]"

text \<open>\<^verbatim>\<open>np.sum(m)\<close> and \<^verbatim>\<open>np.sum(m, axis=0)\<close>\<close>

definition sum_all :: "matrix \<Rightarrow> real" where
  "sum_all m = sum_list (map sum_list (rows m))"

definition sum_axis0 :: "matrix \<Rightarrow> real list" where
  "sum_axis0 m = map (\<lambda>j. sum_list (col m j)) [0..<ncols m]"

text \<open>
  \<^verbatim>\<open>np.max(m)\<close>, the maximum over all entries: numpy raises \<^verbatim>\<open>ValueError\<close> on an
  array with no entry.
\<close>

definition amax :: "matrix \<Rightarrow> error + real" where
  "amax m =
     (if nrows m = 0 \<or> ncols m = 0 then Inl ValueError
      else Inr (Max (set (concat (rows m)))))"

text \<open>The slices \<^verbatim>\<open>m[:, 1:]\<close> and \<^verbatim>\<open>m[1:, :]\<close>.\<close>

definition drop_col0 :: "matrix \<Rightarrow> matrix" where
  "drop_col0 m = Matrix (ncols m - 1) (map tl (rows m))"

definition drop_row0 :: "matrix \<Rightarrow> matrix" where
  "drop_row0 m = Matrix (ncols m) (tl (rows m))"

section \<open>The network\<close>

text \<open>
  The instance attributes that \<^verbatim>\<open>NeuralNetwork.__init__\<close> sets. The three unit counts
  are natural numbers. The attribute \<^verbatim>\<open>activation\<close> is \<open>None\<close> when the constructor did
  not set it.
\<close>

record nn =
  n_output :: nat
  n_features :: nat
  n_hidden :: nat
  w1 :: matrix
  w2 :: matrix
  l2 :: real
  epochs :: int
  learning_rate :: real
  decay_rate :: real
  minibatch_size :: int
  optimizer :: string
  activation :: "string option"
  metrics :: "string list"

text \<open>
  \<^verbatim>\<open>relu(z, deriv)\<close> works in place: \<^verbatim>\<open>relud = z\<close> and \<^verbatim>\<open>deriv = z\<close> bind a second name
  to the caller's array, the masked assignments write into it, and the array returned is
  that same array. The function below gives the array's contents after the call; a caller
  that goes on using its argument must read this value. With \<^verbatim>\<open>deriv\<close> set the two
  masked assignments run one after the other.
\<close>

definition relu :: "matrix \<Rightarrow> bool \<Rightarrow> matrix" where
  "relu z deriv =
     (if \<not> deriv then mmap (\<lambda>x. if x < 0 then 0 else x) z
      else mmap (\<lambda>x. if x > 0 then 1 else x) (mmap (\<lambda>x. if x \<le> 0 then 0 else x) z))"

text \<open>\<^verbatim>\<open>add_bias_unit(X, column)\<close>: a fresh array of ones with \<open>X\<close> copied behind the first
  column, or below the first row.\<close>

definition add_bias_unit :: "matrix \<Rightarrow> bool \<Rightarrow> matrix" where
  "add_bias_unit X column =
     (if column then Matrix (ncols X + 1) (map (\<lambda>r. 1 # r) (rows X))
      else Matrix (ncols X) (replicate (ncols X) 1 # rows X))"

text \<open>
  \<^verbatim>\<open>softmax(v)\<close>: \<^verbatim>\<open>logC = - np.max(v)\<close> is one number for the whole array; the
  array \<^verbatim>\<open>v + logC\<close> is exponentiated and divided by its column sums.
\<close>

definition shifted :: "matrix \<Rightarrow> error + matrix" where
  "shifted v =
     (case amax v of
        Inl e \<Rightarrow> Inl e
      | Inr mx \<Rightarrow> (let logC = - mx in Inr (mmap (\<lambda>x. x + logC) v)))"

definition softmax :: "matrix \<Rightarrow> error + matrix" where
  "softmax v =
     (case shifted v of
        Inl e \<Rightarrow> Inl e
      | Inr s \<Rightarrow> bop (/) (mmap exp s) (row_vector (sum_axis0 (mmap exp s))))"

text \<open>
  \<^verbatim>\<open>forward(X, w1, w2)\<close>. The parameter \<^verbatim>\<open>do_dropout\<close> is never read. The call
  \<^verbatim>\<open>self.relu(z2)\<close> rectifies the array \<open>z2\<close> in place, so the \<open>z2\<close> that is returned is
  the rectified array. No attribute of the instance is read.
\<close>

definition forward ::
  "nn \<Rightarrow> matrix \<Rightarrow> matrix \<Rightarrow> matrix \<Rightarrow>
     error + (matrix \<times> matrix \<times> matrix \<times> matrix \<times> matrix)" where
  "forward self X W1 W2 =
     (let a1 = add_bias_unit X True in
      case dot W1 (transposed a1) of
        Inl e \<Rightarrow> Inl e
      | Inr z2_linear \<Rightarrow>
          (let z2 = relu z2_linear False;
               a2 = z2;
               a2 = add_bias_unit a2 False in
           case dot W2 a2 of
             Inl e \<Rightarrow> Inl e
           | Inr z3 \<Rightarrow>
               (case softmax z3 of
                  Inl e \<Rightarrow> Inl e
                | Inr a3 \<Rightarrow> Inr (a1, z2, a2, z3, a3))))"

text \<open>
  \<^verbatim>\<open>get_cost(y_enc, output, w1, w2)\<close>. The regularisation term is added to the summed
  cross-entropy first; the sum of the two is then divided by \<^verbatim>\<open>y_enc.shape[1]\<close>. The
  quotient is a numpy float, so a batch of no sample gives no exception; the theorems
  below take a batch with a sample, where the real quotient is the computed one.
\<close>

definition get_cost :: "nn \<Rightarrow> matrix \<Rightarrow> matrix \<Rightarrow> matrix \<Rightarrow> matrix \<Rightarrow> error + real" where
  "get_cost self y_enc output W1 W2 =
     (case bop (*) y_enc (mmap ln output) of
        Inl e \<Rightarrow> Inl e
      | Inr p \<Rightarrow>
          (let cost = - sum_all p;
               l2_term = (l2 self / 2) *
                 (sum_all (mmap (\<lambda>x. x\<^sup>2) (drop_col0 W1)) + sum_all (mmap (\<lambda>x. x\<^sup>2) (drop_col0 W2)));
               cost = cost + l2_term
           in Inr (cost / real (ncols y_enc))))"

text \<open>
  \<^verbatim>\<open>g[:, 1:] += u\<close> and \<^verbatim>\<open>g += u\<close>, in place: the right-hand side is broadcast, and
  numpy raises \<^verbatim>\<open>ValueError\<close> when the broadcast shape is not the shape of the target.
\<close>

definition iadd :: "matrix \<Rightarrow> matrix \<Rightarrow> error + matrix" where
  "iadd g u =
     (case bop (+) g u of
        Inl e \<Rightarrow> Inl e
      | Inr s \<Rightarrow> if nrows s = nrows g \<and> ncols s = ncols g then Inr s else Inl ValueError)"

definition iadd_cols :: "matrix \<Rightarrow> matrix \<Rightarrow> error + matrix" where
  "iadd_cols g u =
     (case iadd (drop_col0 g) u of
        Inl e \<Rightarrow> Inl e
      | Inr s \<Rightarrow> Inr (Matrix (ncols g) (map2 (\<lambda>r t. take 1 r @ t) (rows g) (rows s))))"

text \<open>\<^verbatim>\<open>backprop(a1, a2, a3, z2, y_enc, w1, w2)\<close>\<close>

definition backprop ::
  "nn \<Rightarrow> matrix \<Rightarrow> matrix \<Rightarrow> matrix \<Rightarrow> matrix \<Rightarrow> matrix \<Rightarrow> matrix \<Rightarrow> matrix \<Rightarrow>
     error + (matrix \<times> matrix)" where
  "backprop self a1 a2 a3 z2 y_enc W1 W2 =
     (case bop (-) a3 y_enc of
        Inl e \<Rightarrow> Inl e
      | Inr sigma3 \<Rightarrow>
     (let z2 = add_bias_unit z2 False in
      case dot (transposed W2) sigma3 of
        Inl e \<Rightarrow> Inl e
      | Inr back \<Rightarrow>
     (case bop (*) back (relu z2 True) of
        Inl e \<Rightarrow> Inl e
      | Inr sigma2 \<Rightarrow>
     (let sigma2 = drop_row0 sigma2 in
      case dot sigma2 a1 of
        Inl e \<Rightarrow> Inl e
      | Inr grad1 \<Rightarrow>
     (case dot sigma3 (transposed a2) of
        Inl e \<Rightarrow> Inl e
      | Inr grad2 \<Rightarrow>
     (case iadd_cols grad1 (mmap (\<lambda>x. x * l2 self) (drop_col0 W1)) of
        Inl e \<Rightarrow> Inl e
      | Inr grad1 \<Rightarrow>
     (case iadd_cols grad2 (mmap (\<lambda>x. x * l2 self) (drop_col0 W2)) of
        Inl e \<Rightarrow> Inl e
      | Inr grad2 \<Rightarrow> Inr (grad1, grad2))))))))"

text \<open>
  \<^verbatim>\<open>np.argmax(m, axis=0)\<close>: for each column the first row index that holds the
  column's maximum; numpy raises \<^verbatim>\<open>ValueError\<close> on an array of no row.
\<close>

definition argmax_list :: "real list \<Rightarrow> int" where
  "argmax_list xs = int (length (takeWhile (\<lambda>x. x \<noteq> Max (set xs)) xs))"

definition argmax_axis0 :: "matrix \<Rightarrow> error + int list" where
  "argmax_axis0 m =
     (if nrows m = 0 then Inl ValueError
      else Inr (map (\<lambda>j. argmax_list (col m j)) [0..<ncols m]))"

text \<open>\<^verbatim>\<open>predict(X)\<close>\<close>

definition predict :: "nn \<Rightarrow> matrix \<Rightarrow> error + int list" where
  "predict self X =
     (case forward self X (w1 self) (w2 self) of
        Inl e \<Rightarrow> Inl e
      | Inr (a1, z2, a2, z3, a3) \<Rightarrow> argmax_axis0 a3)"

text \<open>
  The scalar arithmetic of \<^verbatim>\<open>accuracy\<close> is on Python floats, which are IEEE binary64
  numbers: each of \<open>+\<close>, \<open>-\<close>, \<open>*\<close>, \<open>/\<close> returns the exact result rounded to the nearest
  number with a 53-bit significand, a tie going to the even significand. \<open>fl64\<close> is that
  rounding, for a result that is zero or in the normal range; \<open>binade x\<close> is the exponent
  \<open>e\<close> with \<open>2\<^sup>e \<le> |x| < 2\<^sup>e\<^sup>+\<^sup>1\<close>. Overflow and subnormal results do not arise in
  \<^verbatim>\<open>accuracy\<close>, whose intermediate results are counts, hundreds of counts and numbers
  between \<open>100 / N\<close> and 100.
\<close>

definition round_half_even :: "real \<Rightarrow> int" where
  "round_half_even x =
     (if x - of_int \<lfloor>x\<rfloor> < 1 / 2 then \<lfloor>x\<rfloor>
      else if 1 / 2 < x - of_int \<lfloor>x\<rfloor> then \<lfloor>x\<rfloor> + 1
      else if even \<lfloor>x\<rfloor> then \<lfloor>x\<rfloor> else \<lfloor>x\<rfloor> + 1)"

definition binade :: "real \<Rightarrow> int" where
  "binade x = \<lfloor>log 2 \<bar>x\<bar>\<rfloor>"

definition fl64 :: "real \<Rightarrow> real" where
  "fl64 x =
     (if x = 0 then 0
      else of_int (round_half_even (x * 2 powi (52 - binade x))) * 2 powi (binade x - 52))"

text \<open>
  \<^verbatim>\<open>accuracy(X_train, y_train)\<close>. Labels and predictions are integers; the difference
  of two integer vectors broadcasts as arrays do. \<^verbatim>\<open>count\<close> is a Python float: it is
  incremented, multiplied by 100, divided by the length and subtracted from 100 in
  binary64, and the division raises \<^verbatim>\<open>ZeroDivisionError\<close> on an empty label vector. The
  array \<^verbatim>\<open>diffs\<close> is \<open>dvec\<close> here.
\<close>

definition vsub :: "int list \<Rightarrow> int list \<Rightarrow> error + int list" where
  "vsub a b =
     (case bdim (length a) (length b) of
        Inl e \<Rightarrow> Inl e
      | Inr n \<Rightarrow> Inr (map2 (-) (stretch n a) (stretch n b)))"

fun count_diffs :: "int list \<Rightarrow> nat list \<Rightarrow> real \<Rightarrow> error + real" where
  "count_diffs dvec [] count = Inr count"
| "count_diffs dvec (i # rest) count =
     (if i < length dvec
      then count_diffs dvec rest (if dvec ! i \<noteq> 0 then fl64 (count + 1) else count)
      else Inl IndexError)"

definition accuracy :: "nn \<Rightarrow> matrix \<Rightarrow> int list \<Rightarrow> error + real" where
  "accuracy self X_train y_train =
     (case predict self X_train of
        Inl e \<Rightarrow> Inl e
      | Inr y_train_pred \<Rightarrow>
     (case vsub y_train_pred y_train of
        Inl e \<Rightarrow> Inl e
      | Inr dvec \<Rightarrow>
     (case count_diffs dvec [0..<length y_train] 0 of
        Inl e \<Rightarrow> Inl e
      | Inr count \<Rightarrow>
          if length y_train = 0 then Inl ZeroDivisionError
          else Inr (fl64 (100 - fl64 (fl64 (count * 100) / real (length y_train)))))))"

text \<open>
  \<^verbatim>\<open>encode_labels(y, num_labels)\<close>. \<^verbatim>\<open>onehot[y[i], i] = 1.0\<close> follows numpy's
  indexing: a negative row index counts from the last row, and an index outside
  \<open>[-num_labels, num_labels)\<close> raises \<^verbatim>\<open>IndexError\<close>.
\<close>

definition set_item :: "matrix \<Rightarrow> int \<Rightarrow> nat \<Rightarrow> real \<Rightarrow> error + matrix" where
  "set_item m r c v =
     (let n = int (nrows m); r' = (if r < 0 then r + n else r) in
      if 0 \<le> r' \<and> r' < n \<and> c < ncols m
      then Inr (Matrix (ncols m) ((rows m)[nat r' := (rows m ! nat r')[c := v]]))
      else Inl IndexError)"

fun encode_loop :: "int list \<Rightarrow> nat list \<Rightarrow> matrix \<Rightarrow> error + matrix" where
  "encode_loop y [] onehot = Inr onehot"
| "encode_loop y (i # rest) onehot =
     (case set_item onehot (y ! i) i 1 of
        Inl e \<Rightarrow> Inl e
      | Inr onehot' \<Rightarrow> encode_loop y rest onehot')"

definition encode_labels :: "nn \<Rightarrow> int list \<Rightarrow> nat \<Rightarrow> error + matrix" where
  "encode_labels self y num_labels =
     encode_loop y [0..<length y] (zeros num_labels (length y))"

section \<open>Construction\<close>

text \<open>
  \<^verbatim>\<open>initialize_weights\<close> draws from numpy's global random state. The two draws
  (\<open>u1\<close> of \<open>n_hidden * (n_features + 1)\<close> numbers and \<open>u2\<close> of
  \<open>n_output * (n_hidden + 1)\<close> numbers, each in \<open>[-1, 1]\<close>) are parameters here.
\<close>

definition reshape :: "nat \<Rightarrow> nat \<Rightarrow> real list \<Rightarrow> matrix" where
  "reshape r c xs = Matrix c (map (\<lambda>i. take c (drop (i * c) xs)) [0..<r])"

definition initialize_weights ::
  "nat \<Rightarrow> nat \<Rightarrow> nat \<Rightarrow> real list \<Rightarrow> real list \<Rightarrow> matrix \<times> matrix" where
  "initialize_weights n_out n_feat n_hid u1 u2 =
     (mmap (\<lambda>x. x / real (n_feat + 1)) (reshape n_hid (n_feat + 1) u1),
      mmap (\<lambda>x. x / real (n_hid + 1)) (reshape n_out (n_hid + 1) u2))"

text \<open>What the constructor prints.\<close>

datatype message = UnsupportedActivation | AvailableActivations "string list"

definition supported_activations :: "string list" where
  "supported_activations = [''relu'', ''tanh'', ''sigmoid'']"

definition supported_metrics :: "string list" where
  "supported_metrics = [''Accuracy'', ''Precision'', ''Recall'', ''AUC'']"

text \<open>
  \<^verbatim>\<open>__init__\<close>: the printed lines, and the instance or the \<^verbatim>\<open>AssertionError\<close> of the
  metric check. An unsupported activation name is only reported: the attribute stays unset.
\<close>

definition init ::
  "nat \<Rightarrow> nat \<Rightarrow> nat \<Rightarrow> real \<Rightarrow> int \<Rightarrow> real \<Rightarrow> real \<Rightarrow> int \<Rightarrow> string \<Rightarrow> string \<Rightarrow>
     string list \<Rightarrow> real list \<Rightarrow> real list \<Rightarrow> message list \<times> (error + nn)" where
  "init n_out n_feat n_hid l2_arg epochs_arg lr decay mb opt act mets u1 u2 =
     (let (W1, W2) = initialize_weights n_out n_feat n_hid u1 u2;
          printed = (if act \<notin> set supported_activations
                     then [UnsupportedActivation, AvailableActivations supported_activations]
                     else []);
          act_attr = (if act \<notin> set supported_activations then None else Some act)
      in if list_all (\<lambda>elem. elem \<in> set supported_metrics) mets
         then (printed,
               Inr \<lparr> n_output = n_out, n_features = n_feat, n_hidden = n_hid,
                     w1 = W1, w2 = W2, l2 = l2_arg, epochs = epochs_arg,
                     learning_rate = lr, decay_rate = decay, minibatch_size = mb,
                     optimizer = opt, activation = act_attr, metrics = mets \<rparr>)
         else (printed, Inl AssertionError))"

section \<open>Training\<close>

text \<open>
  The variables of \<^verbatim>\<open>fit\<close> that live across minibatch steps: the instance, the two
  saved updates, and the three histories.
\<close>

record train_state =
  net :: nn
  prev_grad_w1 :: matrix
  prev_grad_w2 :: matrix
  costs :: "real list"
  grad_1_li :: "matrix list"
  grad_2_li :: "matrix list"

text \<open>
  \<^verbatim>\<open>np.array_split(range(n), k)\<close>: \<open>k\<close> consecutive index ranges, the first \<open>n mod k\<close>
  of them one longer; \<^verbatim>\<open>ValueError\<close> unless \<open>k\<close> is positive.
\<close>

definition array_split :: "nat \<Rightarrow> int \<Rightarrow> error + nat list list" where
  "array_split n k =
     (if k \<le> 0 then Inl ValueError
      else (let s = nat k; q = n div s; r = n mod s in
        Inr (map (\<lambda>j. if j < r then [j * (q + 1)..<(j + 1) * (q + 1)]
                       else [r * (q + 1) + (j - r) * q..<r * (q + 1) + (j - r + 1) * q])
               [0..<s])))"

text \<open>\<^verbatim>\<open>X[idx]\<close> and \<^verbatim>\<open>Y[:, idx]\<close> for an array of indices.\<close>

definition take_rows :: "matrix \<Rightarrow> nat list \<Rightarrow> error + matrix" where
  "take_rows m idx =
     (if list_all (\<lambda>i. i < nrows m) idx
      then Inr (Matrix (ncols m) (map (\<lambda>i. rows m ! i) idx))
      else Inl IndexError)"

definition take_cols :: "matrix \<Rightarrow> nat list \<Rightarrow> error + matrix" where
  "take_cols m idx =
     (if list_all (\<lambda>j. j < ncols m) idx
      then Inr (Matrix (length idx) (map (\<lambda>r. map (\<lambda>j. r ! j) idx) (rows m)))
      else Inl IndexError)"

text \<open>The body of the minibatch loop (one iteration of \<^verbatim>\<open>for idx in mini\<close>).\<close>

definition minibatch_step ::
  "train_state \<Rightarrow> matrix \<Rightarrow> matrix \<Rightarrow> nat list \<Rightarrow> error + train_state" where
  "minibatch_step st X_data y_enc idx =
     (let self = net st in
      case take_rows X_data idx of
        Inl e \<Rightarrow> Inl e
      | Inr X_batch \<Rightarrow>
     (case forward self X_batch (w1 self) (w2 self) of
        Inl e \<Rightarrow> Inl e
      | Inr (a1, z2, a2, z3, a3) \<Rightarrow>
     (case take_cols y_enc idx of
        Inl e \<Rightarrow> Inl e
      | Inr y_batch \<Rightarrow>
     (case get_cost self y_batch a3 (w1 self) (w2 self) of
        Inl e \<Rightarrow> Inl e
      | Inr cost \<Rightarrow>
     (case backprop self a1 a2 a3 z2 y_batch (w1 self) (w2 self) of
        Inl e \<Rightarrow> Inl e
      | Inr (grad1, grad2) \<Rightarrow>
     (let w1_update = mmap (\<lambda>x. learning_rate self * x) grad1;
          w2_update = mmap (\<lambda>x. learning_rate self * x) grad2 in
      case bop (+) w1_update (prev_grad_w1 st) of
        Inl e \<Rightarrow> Inl e
      | Inr step1 \<Rightarrow>
     (case iadd (w1 self) (mmap uminus step1) of
        Inl e \<Rightarrow> Inl e
      | Inr W1' \<Rightarrow>
     (case bop (+) w2_update (prev_grad_w2 st) of
        Inl e \<Rightarrow> Inl e
      | Inr step2 \<Rightarrow>
     (case iadd (w2 self) (mmap uminus step2) of
        Inl e \<Rightarrow> Inl e
      | Inr W2' \<Rightarrow>
          Inr \<lparr> net = self\<lparr> w1 := W1', w2 := W2' \<rparr>,
                prev_grad_w1 = w1_update, prev_grad_w2 = w2_update,
                costs = costs st @ [cost],
                grad_1_li = grad_1_li st @ [grad1],
                grad_2_li = grad_2_li st @ [grad2] \<rparr>)))))))))"

fun run_minibatches ::
  "train_state \<Rightarrow> matrix \<Rightarrow> matrix \<Rightarrow> nat list list \<Rightarrow> error + train_state" where
  "run_minibatches st X_data y_enc [] = Inr st"
| "run_minibatches st X_data y_enc (idx # mini) =
     (case minibatch_step st X_data y_enc idx of
        Inl e \<Rightarrow> Inl e
      | Inr st' \<Rightarrow> run_minibatches st' X_data y_enc mini)"

text \<open>
  \<^verbatim>\<open>self.learning_rate /= (1 + self.decay_rate * i)\<close> on Python floats, which raises
  \<^verbatim>\<open>ZeroDivisionError\<close> on a zero divisor.
\<close>

definition decay_learning_rate :: "nn \<Rightarrow> nat \<Rightarrow> error + nn" where
  "decay_learning_rate self i =
     (let d = 1 + decay_rate self * real i in
      if d = 0 then Inl ZeroDivisionError
      else Inr (self\<lparr> learning_rate := learning_rate self / d \<rparr>))"

text \<open>
  The body of the epoch loop. What it prints is left out; the accuracy it prints is
  still computed, since that call can raise.
\<close>

definition epoch ::
  "matrix \<Rightarrow> int list \<Rightarrow> matrix \<Rightarrow> bool \<Rightarrow> train_state \<Rightarrow> nat \<Rightarrow> error + train_state" where
  "epoch X y y_enc print_progress st i =
     (case decay_learning_rate (net st) i of
        Inl e \<Rightarrow> Inl e
      | Inr self \<Rightarrow>
     (case array_split (length y) (minibatch_size self) of
        Inl e \<Rightarrow> Inl e
      | Inr mini \<Rightarrow>
     (case run_minibatches (st\<lparr> net := self \<rparr>) X y_enc mini of
        Inl e \<Rightarrow> Inl e
      | Inr st' \<Rightarrow>
          if print_progress
          then (case accuracy (net st') X y of Inl e \<Rightarrow> Inl e | Inr acc \<Rightarrow> Inr st')
          else Inr st')))"

fun run_epochs ::
  "matrix \<Rightarrow> int list \<Rightarrow> matrix \<Rightarrow> bool \<Rightarrow> train_state \<Rightarrow> nat list \<Rightarrow> error + train_state" where
  "run_epochs X y y_enc print_progress st [] = Inr st"
| "run_epochs X y y_enc print_progress st (i # more_epochs) =
     (case epoch X y y_enc print_progress st i of
        Inl e \<Rightarrow> Inl e
      | Inr st' \<Rightarrow> run_epochs X y y_enc print_progress st' more_epochs)"

text \<open>The state in which \<^verbatim>\<open>fit\<close> enters its epoch loop.\<close>

definition fit_start :: "nn \<Rightarrow> train_state" where
  "fit_start self =
     \<lparr> net = self,
       prev_grad_w1 = zeros (nrows (w1 self)) (ncols (w1 self)),
       prev_grad_w2 = zeros (nrows (w2 self)) (ncols (w2 self)),
       costs = [], grad_1_li = [], grad_2_li = [] \<rparr>"

text \<open>\<^verbatim>\<open>fit(X, y, print_progress)\<close> returns the trained instance.\<close>

definition fit :: "nn \<Rightarrow> matrix \<Rightarrow> int list \<Rightarrow> bool \<Rightarrow> error + nn" where
  "fit self X y print_progress =
     (case encode_labels self y (n_output self) of
        Inl e \<Rightarrow> Inl e
      | Inr y_enc \<Rightarrow>
          (case run_epochs X y y_enc print_progress (fit_start self) [0..<nat (epochs self)] of
             Inl e \<Rightarrow> Inl e
           | Inr st \<Rightarrow> Inr (net st)))"

section \<open>Reference values\<close>

text \<open>
  The row that \<^verbatim>\<open>onehot[r, i]\<close> addresses in an array of \<open>n\<close> rows when \<open>r\<close> is in
  \<open>[-n, n)\<close>.
\<close>

definition wrap_index :: "nat \<Rightarrow> int \<Rightarrow> int" where
  "wrap_index n r = (if r < 0 then r + int n else r)"

text \<open>
  The one-hot encoding as the specification words it: a \<open>num_labels \<times> N\<close> array whose
  column \<open>i\<close> has a 1 at row \<open>y[i]\<close> and 0 elsewhere.
\<close>

definition onehot_matrix :: "int list \<Rightarrow> nat \<Rightarrow> matrix" where
  "onehot_matrix y num_labels =
     Matrix (length y)
       (map (\<lambda>r. map (\<lambda>i. if y ! i = int r then 1 else 0) [0..<length y]) [0..<num_labels])"


text \<open>
  The two terms of the cost as the specification words them: the summed cross-entropy
  \<open>- sum(y * log(p))\<close>, and the penalty \<open>(\<lambda>/2) * (\<parallel>W1_nonbias\<parallel>\<^sup>2 + \<parallel>W2_nonbias\<parallel>\<^sup>2)\<close> over the
  entries outside column 0.
\<close>

definition cross_entropy :: "matrix \<Rightarrow> matrix \<Rightarrow> real" where
  "cross_entropy y_enc output =
     - (\<Sum>i<nrows y_enc. \<Sum>j<ncols y_enc. entry y_enc i j * ln (entry output i j))"

definition l2_penalty :: "real \<Rightarrow> matrix \<Rightarrow> matrix \<Rightarrow> real" where
  "l2_penalty lam W1 W2 =
     (lam / 2) * ((\<Sum>i<nrows W1. \<Sum>j = 1..<ncols W1. (entry W1 i j)\<^sup>2) +
                  (\<Sum>i<nrows W2. \<Sum>j = 1..<ncols W2. (entry W2 i j)\<^sup>2))"

text \<open>The number of positions at which the predictions differ from the labels.\<close>

definition mismatches :: "int list \<Rightarrow> int list \<Rightarrow> nat" where
  "mismatches p y = length (filter (\<lambda>b. \<not> b) (map2 (=) p y))"

text \<open>\<^verbatim>\<open>np.mean\<close> of a vector of truth values: the share of the true ones.\<close>

definition mean_of :: "bool list \<Rightarrow> real" where
  "mean_of bs = real (length (filter (\<lambda>b. b) bs)) / real (length bs)"

text \<open>
  The shapes that the docstring of \<^verbatim>\<open>backprop\<close> gives its arguments, for \<open>M\<close> samples:
  \<open>a1\<close> is \<open>M \<times> (features + 1)\<close>, \<open>z2\<close> is \<open>hidden \<times> M\<close>, \<open>a2\<close> is \<open>(hidden + 1) \<times> M\<close>,
  \<open>a3\<close> and \<open>y_enc\<close> are \<open>classes \<times> M\<close>, \<open>w1\<close> is \<open>hidden \<times> (features + 1)\<close> and \<open>w2\<close> is
  \<open>classes \<times> (hidden + 1)\<close>.
\<close>

definition activations_conform ::
  "matrix \<Rightarrow> matrix \<Rightarrow> matrix \<Rightarrow> matrix \<Rightarrow> matrix \<Rightarrow> matrix \<Rightarrow> matrix \<Rightarrow> bool" where
  "activations_conform a1 a2 a3 z2 y_enc W1 W2 =
     (wf_matrix a1 \<and> wf_matrix a2 \<and> wf_matrix a3 \<and> wf_matrix z2 \<and> wf_matrix y_enc \<and>
      wf_matrix W1 \<and> wf_matrix W2 \<and>
      ncols a1 = ncols W1 \<and> nrows z2 = nrows W1 \<and> ncols z2 = nrows a1 \<and>
      nrows a2 = ncols W2 \<and> ncols a2 = nrows a1 \<and> ncols W2 = nrows W1 + 1 \<and>
      nrows a3 = nrows W2 \<and> ncols a3 = nrows a1 \<and>
      nrows y_enc = nrows W2 \<and> ncols y_enc = nrows a1)"

text \<open>
  The shapes in a training state: the weights are \<open>hidden \<times> (features + 1)\<close> and
  \<open>classes \<times> (hidden + 1)\<close>, and each saved update has the shape of its weight matrix.
\<close>

definition train_state_ok :: "train_state \<Rightarrow> bool" where
  "train_state_ok st =
     (wf_matrix (w1 (net st)) \<and> wf_matrix (w2 (net st)) \<and>
      ncols (w2 (net st)) = nrows (w1 (net st)) + 1 \<and>
      wf_matrix (prev_grad_w1 st) \<and> nrows (prev_grad_w1 st) = nrows (w1 (net st)) \<and>
      ncols (prev_grad_w1 st) = ncols (w1 (net st)) \<and>
      wf_matrix (prev_grad_w2 st) \<and> nrows (prev_grad_w2 st) = nrows (w2 (net st)) \<and>
      ncols (prev_grad_w2 st) = ncols (w2 (net st)))"

text \<open>
  The training run as the specification words it. The update of a weight matrix: from
  every weight the sum of \<open>learning_rate \<cdot> grad\<close> and the previous step's delta is
  subtracted.
\<close>

definition sgd_update :: "real \<Rightarrow> matrix \<Rightarrow> matrix \<Rightarrow> matrix \<Rightarrow> matrix" where
  "sgd_update lr W grad delta =
     Matrix (ncols W)
       (map (\<lambda>i. map (\<lambda>j. entry W i j - (lr * entry grad i j + entry delta i j)) [0..<ncols W])
          [0..<nrows W])"

text \<open>The gradients of one minibatch: forward, then backward, on the rows \<open>idx\<close>.\<close>

definition batch_gradients ::
  "nn \<Rightarrow> matrix \<Rightarrow> matrix \<Rightarrow> nat list \<Rightarrow> matrix \<Rightarrow> matrix \<Rightarrow> error + (matrix \<times> matrix)" where
  "batch_gradients self X y_enc idx W1 W2 =
     (case take_rows X idx of
        Inl e \<Rightarrow> Inl e
      | Inr X_batch \<Rightarrow>
     (case forward self X_batch W1 W2 of
        Inl e \<Rightarrow> Inl e
      | Inr (a1, z2, a2, z3, a3) \<Rightarrow>
     (case take_cols y_enc idx of
        Inl e \<Rightarrow> Inl e
      | Inr y_batch \<Rightarrow> backprop self a1 a2 a3 z2 y_batch W1 W2)))"

text \<open>
  The learning rates of the epochs \<open>es\<close>: each epoch divides the rate it finds by
  \<open>1 + decay_rate * epoch_index\<close>, and the rate is never reset.
\<close>

fun epoch_rates :: "real \<Rightarrow> real \<Rightarrow> nat list \<Rightarrow> real list" where
  "epoch_rates lr d [] = []"
| "epoch_rates lr d (i # es) = lr / (1 + d * real i) # epoch_rates (lr / (1 + d * real i)) d es"

text \<open>The partitions of the sample indices (none when the split raises).\<close>

definition minibatches_of :: "nat \<Rightarrow> int \<Rightarrow> nat list list" where
  "minibatches_of n k = (case array_split n k of Inl e \<Rightarrow> [] | Inr mini \<Rightarrow> mini)"

text \<open>
  All minibatch steps of a run, in order, each with the learning rate of its epoch: every
  partition once per epoch.
\<close>

definition schedule :: "real \<Rightarrow> real \<Rightarrow> nat list list \<Rightarrow> nat list \<Rightarrow> (real \<times> nat list) list" where
  "schedule lr d mini es = concat (map (\<lambda>r. map (\<lambda>idx. (r, idx)) mini) (epoch_rates lr d es))"

text \<open>
  The run over a list of steps. The state is the two weight matrices and the two deltas
  of the previous step. Each step updates both weight matrices by \<open>sgd_update\<close> with the
  deltas it finds, and leaves \<open>learning_rate \<cdot> grad\<close> as the deltas for the next step; no
  other coefficient occurs.
\<close>

fun update_steps ::
  "nn \<Rightarrow> matrix \<Rightarrow> matrix \<Rightarrow> (real \<times> nat list) list \<Rightarrow>
     matrix \<times> matrix \<times> matrix \<times> matrix \<Rightarrow> error + (matrix \<times> matrix \<times> matrix \<times> matrix)" where
  "update_steps self X y_enc [] s = Inr s"
| "update_steps self X y_enc ((lr, idx) # steps) (W1, W2, D1, D2) =
     (case batch_gradients self X y_enc idx W1 W2 of
        Inl e \<Rightarrow> Inl e
      | Inr (grad1, grad2) \<Rightarrow>
          update_steps self X y_enc steps
            (sgd_update lr W1 grad1 D1, sgd_update lr W2 grad2 D2,
             mmap (\<lambda>x. lr * x) grad1, mmap (\<lambda>x. lr * x) grad2))"

text \<open>
  What every state of a run over the samples \<open>X\<close> and the encoded labels \<open>y_enc\<close> keeps:
  the shapes of the weights and of the saved updates, and the regularisation strength.
\<close>

definition run_invariant :: "nn \<Rightarrow> matrix \<Rightarrow> matrix \<Rightarrow> train_state \<Rightarrow> bool" where
  "run_invariant self X y_enc st =
     (train_state_ok st \<and> ncols (w1 (net st)) = ncols X + 1 \<and>
      nrows y_enc = nrows (w2 (net st)) \<and> l2 (net st) = l2 self)"

text \<open>The part of a training state that the flat run keeps.\<close>

definition weights_and_deltas :: "train_state \<Rightarrow> matrix \<times> matrix \<times> matrix \<times> matrix" where
  "weights_and_deltas st = (w1 (net st), w2 (net st), prev_grad_w1 st, prev_grad_w2 st)"

text \<open>A small instance: one feature, one hidden unit, one class.\<close>

definition example_net :: nn where
  "example_net =
     \<lparr> n_output = 1, n_features = 1, n_hidden = 1,
       w1 = Matrix 2 [[0, 1]], w2 = Matrix 2 [[0, 1]], l2 = 2, epochs = 2,
       learning_rate = 1, decay_rate = 1, minibatch_size = 1,
       optimizer = ''Gradient Descent'', activation = Some ''relu'',
       metrics = [''Accuracy''] \<rparr>"

section \<open>Shapes and elementwise operations\<close>

lemma mmap_mmap: "mmap f (mmap g m) = mmap (f \<circ> g) m"
  by (simp add: mmap_def)

lemma ncols_mmap [simp]: "ncols (mmap f m) = ncols m"
  by (simp add: mmap_def)

lemma nrows_mmap [simp]: "nrows (mmap f m) = nrows m"
  by (simp add: mmap_def nrows_def)

lemma rows_mmap: "rows (mmap f m) = map (map f) (rows m)"
  by (simp add: mmap_def)

lemma wf_mmap [simp]: "wf_matrix (mmap f m) = wf_matrix m"
  by (simp add: mmap_def wf_matrix_def list_all_iff)

lemma wf_row_length: "wf_matrix m \<Longrightarrow> i < nrows m \<Longrightarrow> length (rows m ! i) = ncols m"
  by (simp add: wf_matrix_def nrows_def list_all_length)

lemma entry_mmap:
  "wf_matrix m \<Longrightarrow> i < nrows m \<Longrightarrow> j < ncols m \<Longrightarrow> entry (mmap f m) i j = f (entry m i j)"
  by (simp add: entry_def mmap_def nrows_def wf_matrix_def list_all_length)

lemma stretch_same [simp]: "length xs = n \<Longrightarrow> stretch n xs = xs"
  by (simp add: stretch_def)

lemma expand_same: "wf_matrix m \<Longrightarrow> nrows m = r \<Longrightarrow> ncols m = c \<Longrightarrow> expand r c m = m"
  by (cases m) (auto simp: expand_def nrows_def wf_matrix_def list_all_iff map_idI)

lemma bop_same_shape:
  "wf_matrix a \<Longrightarrow> wf_matrix b \<Longrightarrow> nrows a = nrows b \<Longrightarrow> ncols a = ncols b \<Longrightarrow>
   bop f a b = Inr (Matrix (ncols a) (map2 (map2 f) (rows a) (rows b)))"
  by (simp add: bop_def bdim_def expand_same)

lemma wf_zeros [simp]: "wf_matrix (zeros r c)"
  by (simp add: zeros_def wf_matrix_def list_all_iff)

lemma nrows_zeros [simp]: "nrows (zeros r c) = r"
  by (simp add: zeros_def nrows_def)

lemma ncols_zeros [simp]: "ncols (zeros r c) = c"
  by (simp add: zeros_def)

lemma entry_zeros [simp]: "i < r \<Longrightarrow> j < c \<Longrightarrow> entry (zeros r c) i j = 0"
  by (simp add: zeros_def entry_def)

lemma matrix_eqI:
  assumes "wf_matrix a" "wf_matrix b" "nrows a = nrows b" "ncols a = ncols b"
    and "\<And>i j. i < nrows a \<Longrightarrow> j < ncols a \<Longrightarrow> entry a i j = entry b i j"
  shows "a = b"
proof -
  have "rows a = rows b"
  proof (rule nth_equalityI)
    show "length (rows a) = length (rows b)" using assms(3) by (simp add: nrows_def)
  next
    fix i assume i: "i < length (rows a)"
    show "rows a ! i = rows b ! i"
    proof (rule nth_equalityI)
      show "length (rows a ! i) = length (rows b ! i)"
        using assms(1-4) i wf_row_length [of a i] wf_row_length [of b i] by (simp add: nrows_def)
    next
      fix j assume "j < length (rows a ! i)"
      then have "j < ncols a" using assms(1) i wf_row_length [of a i] by (simp add: nrows_def)
      then show "rows a ! i ! j = rows b ! i ! j"
        using assms(5) [of i j] i by (simp add: entry_def nrows_def)
    qed
  qed
  then show ?thesis using assms(4) by (cases a, cases b) simp
qed

lemma wf_MatrixI: "(\<And>r. r \<in> set rs \<Longrightarrow> length r = c) \<Longrightarrow> wf_matrix (Matrix c rs)"
  by (simp add: wf_matrix_def list_all_iff)

lemma sum_list_nth_sum: "sum_list xs = (\<Sum>i<length xs. xs ! i)"
  by (simp add: sum_list_sum_nth atLeast0LessThan)

lemma sum_list_col: "sum_list (col m j) = (\<Sum>i<nrows m. entry m i j)"
  by (simp add: sum_list_nth_sum col_def entry_def nrows_def)

lemma sum_all_entries:
  assumes "wf_matrix m"
  shows "sum_all m = (\<Sum>i<nrows m. \<Sum>j<ncols m. entry m i j)"
proof -
  have "sum_all m = (\<Sum>i<nrows m. sum_list (rows m ! i))"
    by (simp add: sum_all_def sum_list_nth_sum nrows_def)
  also have "\<dots> = (\<Sum>i<nrows m. \<Sum>j<ncols m. entry m i j)"
    using assms by (intro sum.cong refl) (simp add: sum_list_nth_sum wf_row_length entry_def)
  finally show ?thesis .
qed

lemma amax_ok:
  "0 < nrows m \<Longrightarrow> 0 < ncols m \<Longrightarrow> amax m = Inr (Max (set (concat (rows m))))"
  by (simp add: amax_def)

lemma amax_Inr: "amax m = Inr x \<Longrightarrow> 0 < nrows m \<and> 0 < ncols m"
  by (auto simp: amax_def split: if_splits)

lemma rows_expand_row_vector:
  "length v = c \<Longrightarrow> rows (expand r c (row_vector v)) = replicate r v"
  by (cases "r = 1") (simp_all add: expand_def row_vector_def stretch_def)

lemma bop_row_vector:
  assumes "wf_matrix a" "length v = ncols a"
  shows "bop f a (row_vector v) = Inr (Matrix (ncols a) (map (\<lambda>r. map2 f r v) (rows a)))"
proof -
  have "bdim (nrows a) (nrows (row_vector v)) = Inr (nrows a)"
    by (simp add: bdim_def row_vector_def nrows_def)
  moreover have "bdim (ncols a) (ncols (row_vector v)) = Inr (ncols a)"
    using assms(2) by (simp add: bdim_def row_vector_def)
  moreover have "map2 (map2 f) (rows a) (replicate (nrows a) v) = map (\<lambda>r. map2 f r v) (rows a)"
    by (simp add: nrows_def map2_map_map zip_replicate2 list_eq_iff_nth_eq)
  ultimately show ?thesis
    using assms by (simp add: bop_def expand_same rows_expand_row_vector)
qed

lemma wf_add_bias_unit [simp]: "wf_matrix (add_bias_unit X c) = wf_matrix X"
  by (simp add: add_bias_unit_def wf_matrix_def list_all_iff)

lemma ncols_add_bias_unit: "ncols (add_bias_unit X c) = (if c then ncols X + 1 else ncols X)"
  by (simp add: add_bias_unit_def)

lemma nrows_add_bias_unit: "nrows (add_bias_unit X c) = (if c then nrows X else nrows X + 1)"
  by (simp add: add_bias_unit_def nrows_def)

lemma wf_transposed [simp]: "wf_matrix (transposed m)"
  by (simp add: transposed_def wf_matrix_def list_all_iff col_def nrows_def)

lemma ncols_transposed [simp]: "ncols (transposed m) = nrows m"
  by (simp add: transposed_def)

lemma nrows_transposed [simp]: "nrows (transposed m) = ncols m"
  by (simp add: transposed_def nrows_def)

lemma dot_Inr:
  "dot a b = Inr d \<Longrightarrow> ncols a = nrows b \<and> wf_matrix d \<and> nrows d = nrows a \<and> ncols d = ncols b"
  by (auto simp: dot_def wf_matrix_def list_all_iff nrows_def split: if_splits)

lemma dot_ok: "ncols a = nrows b \<Longrightarrow> \<exists>d. dot a b = Inr d"
  by (simp add: dot_def)

lemma relu_False_shape [simp]:
  "wf_matrix (relu z d) = wf_matrix z" "nrows (relu z d) = nrows z" "ncols (relu z d) = ncols z"
  by (simp_all add: relu_def)

lemma bop_same_shape_entries:
  assumes "wf_matrix a" "wf_matrix b" "nrows a = nrows b" "ncols a = ncols b"
  shows "\<exists>p. bop f a b = Inr p \<and> wf_matrix p \<and> nrows p = nrows a \<and> ncols p = ncols a \<and>
           (\<forall>i<nrows a. \<forall>j<ncols a. entry p i j = f (entry a i j) (entry b i j))"
proof -
  let ?p = "Matrix (ncols a) (map2 (map2 f) (rows a) (rows b))"
  have "bop f a b = Inr ?p" using assms by (rule bop_same_shape)
  moreover have "wf_matrix ?p"
    using assms by (auto simp: wf_matrix_def list_all_iff dest!: set_zip_leftD set_zip_rightD elim!: in_set_zipE)
  moreover have "nrows ?p = nrows a" using assms(3) by (simp add: nrows_def)
  moreover have "\<forall>i<nrows a. \<forall>j<ncols a. entry ?p i j = f (entry a i j) (entry b i j)"
    using assms wf_row_length [of a] wf_row_length [of b] by (simp add: entry_def nrows_def)
  ultimately show ?thesis by (intro exI [of _ ?p]) simp
qed

lemma wf_drop_col0 [simp]: "wf_matrix m \<Longrightarrow> wf_matrix (drop_col0 m)"
  by (auto simp: drop_col0_def wf_matrix_def list_all_iff)

lemma nrows_drop_col0 [simp]: "nrows (drop_col0 m) = nrows m"
  by (simp add: drop_col0_def nrows_def)

lemma ncols_drop_col0 [simp]: "ncols (drop_col0 m) = ncols m - 1"
  by (simp add: drop_col0_def)

lemma entry_drop_col0:
  "wf_matrix m \<Longrightarrow> i < nrows m \<Longrightarrow> j < ncols m - 1 \<Longrightarrow> entry (drop_col0 m) i j = entry m i (Suc j)"
  using wf_row_length [of m i] by (simp add: drop_col0_def entry_def nrows_def nth_tl)

lemma sum_nonbias: "(\<Sum>j<n - 1. g (Suc j)) = (\<Sum>j = 1..<n. (g j :: real))"
proof (cases n)
  case 0
  then show ?thesis by simp
next
  case (Suc k)
  have "(\<Sum>j = 1..<Suc k. g j) = (\<Sum>j = 0..<k. g (Suc j))"
    using sum.atLeast_Suc_lessThan_Suc_shift [of g 0 k] by simp
  then show ?thesis using Suc by (simp add: atLeast0LessThan)
qed

lemma sum_all_squares_nonbias:
  assumes "wf_matrix W"
  shows "sum_all (mmap (\<lambda>x. x\<^sup>2) (drop_col0 W)) = (\<Sum>i<nrows W. \<Sum>j = 1..<ncols W. (entry W i j)\<^sup>2)"
proof -
  have "sum_all (mmap (\<lambda>x. x\<^sup>2) (drop_col0 W)) =
          (\<Sum>i<nrows W. \<Sum>j<ncols W - 1. entry (mmap (\<lambda>x. x\<^sup>2) (drop_col0 W)) i j)"
    using assms by (simp add: sum_all_entries)
  also have "\<dots> = (\<Sum>i<nrows W. \<Sum>j<ncols W - 1. (entry W i (Suc j))\<^sup>2)"
    using assms by (intro sum.cong refl) (simp add: entry_mmap entry_drop_col0)
  also have "\<dots> = (\<Sum>i<nrows W. \<Sum>j = 1..<ncols W. (entry W i j)\<^sup>2)"
  proof (rule sum.cong [OF refl])
    fix i
    show "(\<Sum>j<ncols W - 1. (entry W i (Suc j))\<^sup>2) = (\<Sum>j = 1..<ncols W. (entry W i j)\<^sup>2)"
      by (rule sum_nonbias [where g = "\<lambda>j. (entry W i j)\<^sup>2"])
  qed
  finally show ?thesis .
qed

lemma example_net_simps:
  "w1 example_net = Matrix 2 [[0, 1]]" "w2 example_net = Matrix 2 [[0, 1]]" "l2 example_net = 2"
  "learning_rate example_net = 1" "decay_rate example_net = 1" "minibatch_size example_net = 1"
  by (simp_all add: example_net_def)

lemma sum_lessThan_1: "(\<Sum>i<(1::nat). f i) = (f 0 :: real)"
  by simp

lemma sum_lessThan_2: "(\<Sum>i<(2::nat). f i) = (f 0 + f 1 :: real)"
  by (simp add: numeral_2_eq_2)

lemma sum_from_1_upto_2: "(\<Sum>j = (1::nat)..<2. f j) = (f 1 :: real)"
  by (simp add: numeral_2_eq_2)

section \<open>Softmax and the forward pass\<close>


lemma softmax_ok:
  assumes "wf_matrix v" "0 < nrows v" "0 < ncols v"
  shows "\<exists>mx a. amax v = Inr mx \<and> shifted v = Inr (mmap (\<lambda>x. x - mx) v) \<and> softmax v = Inr a \<and>
           wf_matrix a \<and> nrows a = nrows v \<and> ncols a = ncols v \<and>
           (\<forall>i<nrows v. \<forall>j<ncols v. entry a i j =
              exp (entry v i j - mx) / (\<Sum>k<nrows v. exp (entry v k j - mx)))"
proof -
  obtain mx where mx: "amax v = Inr mx" using assms by (auto simp: amax_def)
  let ?s = "mmap (\<lambda>x. x - mx) v"
  let ?e = "mmap exp ?s"
  let ?sums = "sum_axis0 ?e"
  let ?a = "Matrix (ncols v) (map (\<lambda>r. map2 (/) r ?sums) (rows ?e))"
  have sh: "shifted v = Inr ?s"
    using mx by (simp add: shifted_def)
  have len: "length ?sums = ncols ?e" by (simp add: sum_axis0_def)
  have sm: "softmax v = Inr ?a"
    using bop_row_vector [of ?e ?sums "(/)"] assms(1) len by (simp add: softmax_def sh)
  have wf: "wf_matrix ?a"
    using assms(1) by (intro wf_MatrixI) (auto simp: rows_mmap sum_axis0_def wf_matrix_def list_all_iff)
  have nr: "nrows ?a = nrows v" by (simp add: nrows_def rows_mmap)
  have "\<forall>i<nrows v. \<forall>j<ncols v. entry ?a i j =
              exp (entry v i j - mx) / (\<Sum>k<nrows v. exp (entry v k j - mx))"
  proof (intro allI impI)
    fix i j assume ij: "i < nrows v" "j < ncols v"
    have e: "\<And>k. k < nrows v \<Longrightarrow> entry ?e k j = exp (entry v k j - mx)"
      using assms(1) ij(2) by (simp add: entry_mmap)
    have "entry ?a i j = entry ?e i j / ?sums ! j"
      using ij assms(1) wf_row_length [of ?e i]
      by (simp add: entry_def nrows_def sum_axis0_def rows_mmap)
    also have "?sums ! j = (\<Sum>k<nrows v. entry ?e k j)"
      using ij by (simp add: sum_axis0_def sum_list_col)
    finally show "entry ?a i j = exp (entry v i j - mx) / (\<Sum>k<nrows v. exp (entry v k j - mx))"
      using e ij by simp
  qed
  then show ?thesis using mx sh sm wf nr by (intro exI [of _ mx] exI [of _ ?a]) simp
qed


lemma forward_Inr:
  assumes "forward self X W1 W2 = Inr (a1, z2, a2, z3, a3)"
  shows "a1 = add_bias_unit X True \<and>
         (\<exists>z2_linear. dot W1 (transposed a1) = Inr z2_linear \<and> z2 = relu z2_linear False) \<and>
         a2 = add_bias_unit z2 False \<and> dot W2 a2 = Inr z3 \<and> softmax z3 = Inr a3"
  using assms by (auto simp: forward_def Let_def split: sum.splits)

lemma forward_ok:
  assumes "wf_matrix X" "ncols W1 = ncols X + 1" "ncols W2 = nrows W1 + 1"
    and "0 < nrows X" "0 < nrows W2"
  shows "\<exists>a1 z2 a2 z3 a3. forward self X W1 W2 = Inr (a1, z2, a2, z3, a3) \<and>
           wf_matrix a1 \<and> nrows a1 = nrows X \<and> ncols a1 = ncols X + 1 \<and>
           wf_matrix z2 \<and> nrows z2 = nrows W1 \<and> ncols z2 = nrows X \<and>
           wf_matrix a2 \<and> nrows a2 = nrows W1 + 1 \<and> ncols a2 = nrows X \<and>
           wf_matrix z3 \<and> nrows z3 = nrows W2 \<and> ncols z3 = nrows X \<and>
           wf_matrix a3 \<and> nrows a3 = nrows W2 \<and> ncols a3 = nrows X"
proof -
  let ?a1 = "add_bias_unit X True"
  obtain zl where zl: "dot W1 (transposed ?a1) = Inr zl"
    using dot_ok [of W1 "transposed ?a1"] assms(2) by (auto simp: ncols_add_bias_unit)
  let ?z2 = "relu zl False"
  let ?a2 = "add_bias_unit ?z2 False"
  have zls: "wf_matrix zl" "nrows zl = nrows W1" "ncols zl = nrows X"
    using dot_Inr [OF zl] by (simp_all add: nrows_add_bias_unit)
  obtain z3 where z3: "dot W2 ?a2 = Inr z3"
    using dot_ok [of W2 ?a2] assms(3) zls by (auto simp: nrows_add_bias_unit)
  have z3s: "wf_matrix z3" "nrows z3 = nrows W2" "ncols z3 = nrows X"
    using dot_Inr [OF z3] zls by (simp_all add: ncols_add_bias_unit)
  obtain a3 where a3: "softmax z3 = Inr a3" "wf_matrix a3" "nrows a3 = nrows z3" "ncols a3 = ncols z3"
    using softmax_ok [of z3] z3s assms(4,5) by auto
  have "forward self X W1 W2 = Inr (?a1, ?z2, ?a2, z3, a3)"
    using zl z3 a3(1) by (simp add: forward_def Let_def)
  then show ?thesis
    using assms(1) zls z3s a3 by (simp add: nrows_add_bias_unit ncols_add_bias_unit)
qed


lemma bop_error: "bop f a b = Inl e \<Longrightarrow> e = ValueError"
  by (auto simp: bop_def bdim_def split: sum.splits if_splits)

lemma dot_error: "dot a b = Inl e \<Longrightarrow> e = ValueError"
  by (auto simp: dot_def split: if_splits)

lemma softmax_error: "softmax v = Inl e \<Longrightarrow> e = ValueError"
  by (auto simp: softmax_def shifted_def amax_def Let_def split: sum.splits if_splits dest: bop_error)

lemma forward_error: "forward self X W1 W2 = Inl e \<Longrightarrow> e = ValueError"
  by (auto simp: forward_def Let_def split: sum.splits dest: dot_error softmax_error)

lemma forward_any_instance: "forward self X W1 W2 = forward self' X W1 W2"
  by (simp add: forward_def)

section \<open>The derivative mask of rectified values\<close>

lemma relu_mask: "relu z True = mmap (\<lambda>x. if 0 < x then 1 else 0) z"
  by (simp add: relu_def mmap_def comp_def)

lemma relu_mask_idem: "relu (relu z False) True = relu z True"
  by (simp add: relu_def mmap_def comp_def)

lemma relu_bias_idem:
  "relu (add_bias_unit (relu z False) False) True = relu (add_bias_unit z False) True"
  by (simp add: relu_def mmap_def add_bias_unit_def comp_def)

text \<open>
  C10. The derivative mask is 1 at the positive entries and 0 at the others, and the mask
  of the rectified array is the mask of the array itself. So \<^verbatim>\<open>backprop\<close> returns the
  same gradients (and raises the same errors) whether it is handed the hidden
  pre-activation or its rectified form, which is what \<^verbatim>\<open>forward\<close> hands over.
\<close>

theorem relu_mask_of_rectified:
  "relu z True = mmap (\<lambda>x. if 0 < x then 1 else 0) z \<and>
   relu (relu z False) True = relu z True \<and>
   backprop self a1 a2 a3 (relu z False) y_enc W1 W2 = backprop self a1 a2 a3 z y_enc W1 W2"
  by (simp add: relu_mask [symmetric] relu_mask_idem backprop_def Let_def relu_bias_idem
      cong: sum.case_cong)

section \<open>One-hot encoding\<close>

lemma set_item_ok:
  assumes "wf_matrix m" "- int (nrows m) \<le> r" "r < int (nrows m)" "c < ncols m"
  shows "\<exists>m'. set_item m r c v = Inr m' \<and> wf_matrix m' \<and> nrows m' = nrows m \<and> ncols m' = ncols m \<and>
           (\<forall>i<nrows m. \<forall>j<ncols m. entry m' i j =
               (if int i = wrap_index (nrows m) r \<and> j = c then v else entry m i j))"
proof -
  let ?k = "nat (wrap_index (nrows m) r)"
  have k: "?k < nrows m" "int ?k = wrap_index (nrows m) r"
    using assms by (auto simp: wrap_index_def)
  have eq: "set_item m r c v = Inr (Matrix (ncols m) ((rows m)[?k := (rows m ! ?k)[c := v]]))"
    using assms by (auto simp: set_item_def wrap_index_def Let_def)
  let ?m' = "Matrix (ncols m) ((rows m)[?k := (rows m ! ?k)[c := v]])"
  have wf: "wf_matrix ?m'"
    using assms(1) k(1) by (auto simp: wf_matrix_def list_all_length nrows_def nth_list_update)
  have ent: "\<forall>i<nrows m. \<forall>j<ncols m. entry ?m' i j =
               (if int i = wrap_index (nrows m) r \<and> j = c then v else entry m i j)"
  proof (intro allI impI)
    fix i j assume ij: "i < nrows m" "j < ncols m"
    have len: "length (rows m ! ?k) = ncols m" using assms(1) k(1) by (rule wf_row_length)
    show "entry ?m' i j = (if int i = wrap_index (nrows m) r \<and> j = c then v else entry m i j)"
    proof (cases "i = ?k")
      case True
      then show ?thesis using ij k len assms(4)
        by (auto simp: entry_def nrows_def nth_list_update)
    next
      case False
      then have "int i \<noteq> wrap_index (nrows m) r" using k(2) by linarith
      then show ?thesis using False ij by (simp add: entry_def nrows_def)
    qed
  qed
  show ?thesis using eq wf ent by (simp add: nrows_def)
qed

lemma set_item_fails:
  "r < - int (nrows m) \<or> int (nrows m) \<le> r \<Longrightarrow> set_item m r c v = Inl IndexError"
  by (auto simp: set_item_def Let_def)

lemma encode_loop_ok:
  assumes "wf_matrix m" "nrows m = C" "ncols m = N"
    and "\<forall>i\<in>set js. i < N \<and> - int C \<le> y ! i \<and> y ! i < int C"
  shows "\<exists>m'. encode_loop y js m = Inr m' \<and> wf_matrix m' \<and> nrows m' = C \<and> ncols m' = N \<and>
           (\<forall>r<C. \<forall>c<N. entry m' r c =
               (if c \<in> set js \<and> int r = wrap_index C (y ! c) then 1 else entry m r c))"
  using assms
proof (induction js arbitrary: m)
  case Nil
  then show ?case by simp
next
  case (Cons i js)
  have i: "i < N" "- int C \<le> y ! i" "y ! i < int C" using Cons.prems(4) by auto
  obtain m1 where m1: "set_item m (y ! i) i 1 = Inr m1" "wf_matrix m1" "nrows m1 = C" "ncols m1 = N"
    and e1: "\<forall>r<C. \<forall>c<N. entry m1 r c = (if int r = wrap_index C (y ! i) \<and> c = i then 1 else entry m r c)"
    using set_item_ok [of m "y ! i" i 1] Cons.prems(1-3) i by auto
  have js: "\<forall>i\<in>set js. i < N \<and> - int C \<le> y ! i \<and> y ! i < int C" using Cons.prems(4) by auto
  obtain m' where m': "encode_loop y js m1 = Inr m'" "wf_matrix m'" "nrows m' = C" "ncols m' = N"
    and e': "\<forall>r<C. \<forall>c<N. entry m' r c =
               (if c \<in> set js \<and> int r = wrap_index C (y ! c) then 1 else entry m1 r c)"
    using Cons.IH [OF m1(2-4) js] by auto
  have "encode_loop y (i # js) m = Inr m'" using m1(1) m'(1) by simp
  moreover have "\<forall>r<C. \<forall>c<N. entry m' r c =
               (if c \<in> set (i # js) \<and> int r = wrap_index C (y ! c) then 1 else entry m r c)"
    using e' e1 by auto
  ultimately show ?case using m' by blast
qed

lemma encode_loop_fails:
  assumes "wf_matrix m" "nrows m = C" "ncols m = N" "\<forall>i\<in>set js. i < N"
    and "\<exists>i\<in>set js. y ! i < - int C \<or> int C \<le> y ! i"
  shows "encode_loop y js m = Inl IndexError"
  using assms
proof (induction js arbitrary: m)
  case Nil
  then show ?case by simp
next
  case (Cons i js)
  show ?case
  proof (cases "y ! i < - int C \<or> int C \<le> y ! i")
    case True
    then show ?thesis using set_item_fails [of "y ! i" m i 1] Cons.prems(2) by simp
  next
    case False
    then obtain m1 where m1: "set_item m (y ! i) i 1 = Inr m1" "wf_matrix m1" "nrows m1 = C" "ncols m1 = N"
      using set_item_ok [of m "y ! i" i 1] Cons.prems(1-4) by auto
    have "\<exists>i\<in>set js. y ! i < - int C \<or> int C \<le> y ! i" using Cons.prems(5) False by auto
    then have "encode_loop y js m1 = Inl IndexError"
      using Cons.IH [OF m1(2-4)] Cons.prems(4) by auto
    then show ?thesis using m1(1) by simp
  qed
qed

lemma wf_onehot [simp]: "wf_matrix (onehot_matrix y C)"
  by (simp add: onehot_matrix_def wf_matrix_def list_all_iff)

lemma nrows_onehot [simp]: "nrows (onehot_matrix y C) = C"
  by (simp add: onehot_matrix_def nrows_def)

lemma ncols_onehot [simp]: "ncols (onehot_matrix y C) = length y"
  by (simp add: onehot_matrix_def)

lemma entry_onehot:
  "r < C \<Longrightarrow> i < length y \<Longrightarrow> entry (onehot_matrix y C) r i = (if y ! i = int r then 1 else 0)"
  by (simp add: onehot_matrix_def entry_def)

lemma encode_labels_wrapped:
  assumes "\<forall>i<length y. - int C \<le> y ! i \<and> y ! i < int C"
  shows "encode_labels self y C = Inr (onehot_matrix (map (wrap_index C) y) C)"
proof -
  obtain m' where m': "encode_loop y [0..<length y] (zeros C (length y)) = Inr m'"
      "wf_matrix m'" "nrows m' = C" "ncols m' = length y"
    and e': "\<forall>r<C. \<forall>c<length y. entry m' r c =
               (if c \<in> set [0..<length y] \<and> int r = wrap_index C (y ! c) then 1
                else entry (zeros C (length y)) r c)"
    using encode_loop_ok [of "zeros C (length y)" C "length y" "[0..<length y]" y] assms by auto
  have "m' = onehot_matrix (map (wrap_index C) y) C"
  proof (rule matrix_eqI)
    fix i j assume "i < nrows m'" "j < ncols m'"
    then show "entry m' i j = entry (onehot_matrix (map (wrap_index C) y) C) i j"
      using e' m'(3,4) by (auto simp: entry_onehot)
  qed (use m' in simp_all)
  then show ?thesis using m'(1) by (simp add: encode_labels_def)
qed
text \<open>
  C8. When every label lies in \<open>[0, C)\<close>, \<^verbatim>\<open>encode_labels(y, C)\<close> returns the \<open>C \<times> N\<close>
  one-hot array. When some label lies outside \<open>[0, C)\<close>, the call either raises
  \<^verbatim>\<open>IndexError\<close> (a label outside \<open>[-C, C)\<close>) or returns the one-hot array of the
  labels with \<open>C\<close> added to the negative ones, which is not the one-hot array of \<open>y\<close>.
  The labels \<open>[0, 2, 1]\<close> with 3 classes give the columns \<open>[1,0,0]\<close>, \<open>[0,0,1]\<close>,
  \<open>[0,1,0]\<close>.
\<close>

theorem encode_labels_onehot:
  "((\<forall>i<length y. 0 \<le> y ! i \<and> y ! i < int C) \<longrightarrow>
      encode_labels self y C = Inr (onehot_matrix y C)) \<and>
   ((\<exists>i<length y. y ! i < 0 \<or> int C \<le> y ! i) \<longrightarrow>
      encode_labels self y C = Inl IndexError \<or>
      (encode_labels self y C = Inr (onehot_matrix (map (wrap_index C) y) C) \<and>
       encode_labels self y C \<noteq> Inr (onehot_matrix y C))) \<and>
   encode_labels self [0, 2, 1] 3 = Inr (Matrix 3 [[1, 0, 0], [0, 0, 1], [0, 1, 0]])"
proof (intro conjI impI)
  assume a: "\<forall>i<length y. 0 \<le> y ! i \<and> y ! i < int C"
  then have "\<forall>i<length y. - int C \<le> y ! i \<and> y ! i < int C" by auto
  then have "encode_labels self y C = Inr (onehot_matrix (map (wrap_index C) y) C)"
    by (rule encode_labels_wrapped)
  moreover have "map (wrap_index C) y = y"
    using a by (intro nth_equalityI) (auto simp: wrap_index_def)
  ultimately show "encode_labels self y C = Inr (onehot_matrix y C)" by simp
next
  assume b: "\<exists>i<length y. y ! i < 0 \<or> int C \<le> y ! i"
  show "encode_labels self y C = Inl IndexError \<or>
      (encode_labels self y C = Inr (onehot_matrix (map (wrap_index C) y) C) \<and>
       encode_labels self y C \<noteq> Inr (onehot_matrix y C))"
  proof (cases "\<forall>i<length y. - int C \<le> y ! i \<and> y ! i < int C")
    case True
    then have w: "encode_labels self y C = Inr (onehot_matrix (map (wrap_index C) y) C)"
      by (rule encode_labels_wrapped)
    from b True obtain i where i: "i < length y" "y ! i < 0" "- int C \<le> y ! i" by force
    let ?r = "nat (y ! i + int C)"
    have r: "?r < C" using i by linarith
    have "entry (onehot_matrix (map (wrap_index C) y) C) ?r i = 1"
      using i r by (simp add: entry_onehot wrap_index_def)
    moreover have "entry (onehot_matrix y C) ?r i = 0"
      using i r by (simp add: entry_onehot)
    ultimately have "onehot_matrix (map (wrap_index C) y) C \<noteq> onehot_matrix y C" by auto
    then show ?thesis using w by simp
  next
    case False
    then have "\<exists>i\<in>set [0..<length y]. y ! i < - int C \<or> int C \<le> y ! i" by force
    then have "encode_loop y [0..<length y] (zeros C (length y)) = Inl IndexError"
      by (intro encode_loop_fails [where C = C and N = "length y"]) auto
    then show ?thesis by (simp add: encode_labels_def)
  qed
next
  have "\<forall>i<length [0, 2, 1::int]. - int 3 \<le> [0, 2, 1::int] ! i \<and> [0, 2, 1::int] ! i < int 3"
    by (auto simp: nth_Cons split: nat.splits)
  then have "encode_labels self [0, 2, 1] 3 = Inr (onehot_matrix (map (wrap_index 3) [0, 2, 1]) 3)"
    by (rule encode_labels_wrapped)
  also have "map (wrap_index 3) [0, 2, 1] = [0, 2, 1]"
    by (simp add: wrap_index_def)
  also have "onehot_matrix [0, 2, 1] 3 = Matrix 3 [[1, 0, 0], [0, 0, 1], [0, 1, 0]]"
    by (simp add: onehot_matrix_def upt_rec numeral_3_eq_3)
  finally show "encode_labels self [0, 2, 1] 3 = Inr (Matrix 3 [[1, 0, 0], [0, 0, 1], [0, 1, 0]])" .
qed

theorem encode_labels_onehot_witness:
  "encode_labels example_net [1, 0] 2 = Inr (Matrix 2 [[0, 1], [1, 0]]) \<and>
   encode_labels example_net [5] 2 = Inl IndexError \<and>
   encode_labels example_net [- 1] 2 = Inr (Matrix 1 [[0], [1]])"
proof -
  have a: "\<forall>i<length [1, 0::int]. 0 \<le> [1, 0::int] ! i \<and> [1, 0::int] ! i < int 2"
    by (auto simp: nth_Cons split: nat.splits)
  have b: "\<exists>i<length [5::int]. [5::int] ! i < 0 \<or> int 2 \<le> [5::int] ! i"
    by simp
  have c: "\<exists>i<length [- 1::int]. [- 1::int] ! i < 0 \<or> int 2 \<le> [- 1::int] ! i"
    by simp
  have e5: "encode_labels example_net [5] 2 \<noteq> Inr (onehot_matrix (map (wrap_index 2) [5]) 2)"
    by (simp add: encode_labels_def set_item_def zeros_def nrows_def)
  have e1: "encode_labels example_net [- 1] 2 \<noteq> Inl IndexError"
    by (simp add: encode_labels_def set_item_def zeros_def nrows_def)
  have o1: "onehot_matrix [1, 0] 2 = Matrix 2 [[0, 1], [1, 0]]"
    by (simp add: onehot_matrix_def upt_rec numeral_2_eq_2)
  have o2: "onehot_matrix (map (wrap_index 2) [- 1]) 2 = Matrix 1 [[0], [1]]"
    by (simp add: onehot_matrix_def wrap_index_def upt_rec numeral_2_eq_2)
  have r1: "encode_labels example_net [1, 0] 2 = Inr (onehot_matrix [1, 0] 2)"
    using encode_labels_onehot [of "[1, 0]" 2 example_net] a by blast
  have r2: "encode_labels example_net [5] 2 = Inl IndexError"
    using encode_labels_onehot [of "[5]" 2 example_net] b e5 by blast
  have r3: "encode_labels example_net [- 1] 2 = Inr (onehot_matrix (map (wrap_index 2) [- 1]) 2)"
    using encode_labels_onehot [of "[- 1]" 2 example_net] c e1 by blast
  show ?thesis using r1 r2 r3 o1 o2 by simp
qed

section \<open>The cost\<close>

text \<open>
  C1, as the code has it. For conforming arrays, a batch with a sample and positive
  outputs, \<^verbatim>\<open>get_cost\<close> returns the sum of the cross-entropy term and the L2 term,
  divided by the number \<open>M\<close> of samples: the L2 term is divided by \<open>M\<close> as well.
\<close>

theorem get_cost_averages_both_terms:
  assumes "wf_matrix y_enc" "wf_matrix output" "wf_matrix W1" "wf_matrix W2"
    and "nrows output = nrows y_enc" "ncols output = ncols y_enc" "0 < ncols y_enc"
    and "list_all (list_all (\<lambda>p. 0 < p)) (rows output)"
  shows "get_cost self y_enc output W1 W2 =
           Inr ((cross_entropy y_enc output + l2_penalty (l2 self) W1 W2) / real (ncols y_enc))"
proof -
  obtain p where p: "bop (*) y_enc (mmap ln output) = Inr p" "wf_matrix p"
      "nrows p = nrows y_enc" "ncols p = ncols y_enc"
    and e: "\<forall>i<nrows y_enc. \<forall>j<ncols y_enc. entry p i j = entry y_enc i j * entry (mmap ln output) i j"
    using bop_same_shape_entries [of y_enc "mmap ln output" "(*)"] assms(1,2,5,6) by auto
  have "sum_all p = (\<Sum>i<nrows y_enc. \<Sum>j<ncols y_enc. entry p i j)"
    using p by (simp add: sum_all_entries)
  also have "\<dots> = (\<Sum>i<nrows y_enc. \<Sum>j<ncols y_enc. entry y_enc i j * ln (entry output i j))"
    using e assms(2,5,6) by (intro sum.cong refl) (simp add: entry_mmap)
  finally have ce: "- sum_all p = cross_entropy y_enc output"
    by (simp add: cross_entropy_def)
  have "l2 self / 2 * (sum_all (mmap (\<lambda>x. x\<^sup>2) (drop_col0 W1)) + sum_all (mmap (\<lambda>x. x\<^sup>2) (drop_col0 W2)))
          = l2_penalty (l2 self) W1 W2"
    using assms(3,4) by (simp add: l2_penalty_def sum_all_squares_nonbias)
  then show ?thesis using p(1) ce by (simp add: get_cost_def Let_def)
qed

theorem get_cost_averages_both_terms_witness:
  "get_cost example_net (Matrix 2 [[1, 0]]) (Matrix 2 [[1 / 2, 1 / 2]]) (w1 example_net) (w2 example_net)
     = Inr ((- ln (1 / 2) + 2) / 2)"
proof -
  have "get_cost example_net (Matrix 2 [[1, 0]]) (Matrix 2 [[1 / 2, 1 / 2]]) (Matrix 2 [[0, 1]]) (Matrix 2 [[0, 1]])
      = Inr ((cross_entropy (Matrix 2 [[1, 0]]) (Matrix 2 [[1 / 2, 1 / 2]])
             + l2_penalty (l2 example_net) (Matrix 2 [[0, 1]]) (Matrix 2 [[0, 1]]))
            / real (ncols (Matrix 2 [[1, 0]])))"
    by (rule get_cost_averages_both_terms) (simp_all add: wf_matrix_def nrows_def)
  then show ?thesis
    by (simp add: example_net_simps cross_entropy_def l2_penalty_def entry_def nrows_def
        sum_lessThan_1 sum_lessThan_2 sum_from_1_upto_2)
qed

text \<open>
  The claim's value, the averaged cross-entropy plus the L2 term as it stands, is not what
  \<^verbatim>\<open>get_cost\<close> returns: with \<open>l2 = 2\<close>, two samples, outputs 1 and one non-bias weight 1
  in each matrix the code returns 1 and the claim's value is 2.
\<close>

theorem get_cost_raw_l2_counterexample:
  "get_cost example_net (Matrix 2 [[1, 1]]) (Matrix 2 [[1, 1]]) (w1 example_net) (w2 example_net) = Inr 1 \<and>
   cross_entropy (Matrix 2 [[1, 1]]) (Matrix 2 [[1, 1]]) / real (ncols (Matrix 2 [[1, 1]]))
     + l2_penalty (l2 example_net) (w1 example_net) (w2 example_net) = 2"
  by (simp add: example_net_simps get_cost_def bop_def bdim_def expand_def nrows_def mmap_def
      sum_all_def drop_col0_def cross_entropy_def l2_penalty_def entry_def
      sum_lessThan_1 sum_lessThan_2 sum_from_1_upto_2)

section \<open>The output distribution\<close>




section \<open>The hidden pre-activation\<close>

text \<open>
  C3. With one sample \<open>[1]\<close> and \<open>w1 = [[0, -1]]\<close> the linear map \<open>w1 \<cdot> a1\<^sup>T\<close> is
  \<open>[[-1]]\<close>, and the second array that \<^verbatim>\<open>forward\<close> returns is \<open>[[0]]\<close>: the rectified
  array, since \<^verbatim>\<open>relu\<close> has written into \<open>z2\<close>.
\<close>

theorem forward_returns_rectified_z2:
  "dot (Matrix 2 [[0, - 1]]) (transposed (add_bias_unit (Matrix 1 [[1]]) True)) = Inr (Matrix 1 [[- 1]]) \<and>
   forward example_net (Matrix 1 [[1]]) (Matrix 2 [[0, - 1]]) (Matrix 2 [[0, 1]]) =
     Inr (Matrix 2 [[1, 1]], Matrix 1 [[0]], Matrix 1 [[1], [0]], Matrix 1 [[0]], Matrix 1 [[1]])"
  by (simp add: forward_def add_bias_unit_def transposed_def dot_def col_def
      nrows_def relu_def mmap_def softmax_def shifted_def amax_def bop_def bdim_def expand_def
      stretch_def row_vector_def sum_axis0_def Let_def upt_rec numeral_2_eq_2)

section \<open>An unsupported activation name\<close>

text \<open>
  C4, as the code has it. With an activation name outside the supported three and
  supported metric names, the constructor prints its two lines and returns an instance
  whose \<^verbatim>\<open>activation\<close> attribute is unset. \<^verbatim>\<open>forward\<close> never reads that attribute: on
  this instance it never raises an attribute error and computes what it computes on an
  instance built with \<^verbatim>\<open>'relu'\<close>.
\<close>

theorem init_unsupported_activation:
  assumes "act \<notin> set supported_activations"
    and "list_all (\<lambda>elem. elem \<in> set supported_metrics) mets"
  shows "\<exists>self. init n_out n_feat n_hid l2_arg epochs_arg lr decay mb opt act mets u1 u2 =
           ([UnsupportedActivation, AvailableActivations supported_activations], Inr self) \<and>
         activation self = None \<and>
         (\<forall>X W1 W2. forward self X W1 W2 \<noteq> Inl AttributeError \<and>
            forward self X W1 W2 = forward (self\<lparr> activation := Some ''relu'' \<rparr>) X W1 W2)"
proof -
  obtain A B where w: "initialize_weights n_out n_feat n_hid u1 u2 = (A, B)"
    by (cases "initialize_weights n_out n_feat n_hid u1 u2")
  let ?self = "\<lparr> n_output = n_out, n_features = n_feat, n_hidden = n_hid,
                     w1 = A, w2 = B, l2 = l2_arg, epochs = epochs_arg,
                     learning_rate = lr, decay_rate = decay, minibatch_size = mb,
                     optimizer = opt, activation = None, metrics = mets \<rparr>"
  have "init n_out n_feat n_hid l2_arg epochs_arg lr decay mb opt act mets u1 u2 =
           ([UnsupportedActivation, AvailableActivations supported_activations], Inr ?self)"
    using assms w by (simp add: init_def)
  moreover have "\<forall>X W1 W2. forward ?self X W1 W2 \<noteq> Inl AttributeError"
    using forward_error by fastforce
  moreover have "\<forall>X W1 W2. forward ?self X W1 W2 = forward (?self\<lparr> activation := Some ''relu'' \<rparr>) X W1 W2"
    by (simp add: forward_def)
  ultimately show ?thesis by (intro exI [of _ ?self]) simp
qed

theorem init_unsupported_activation_witness:
  "\<exists>self. init 1 1 1 2 2 1 1 1 ''Gradient Descent'' ''swish'' [''Accuracy''] [0, 2] [0, 2] =
           ([UnsupportedActivation, AvailableActivations supported_activations], Inr self) \<and>
         activation self = None \<and>
         forward self (Matrix 1 [[1]]) (w1 self) (w2 self) \<noteq> Inl AttributeError"
proof -
  have a: "''swish'' \<notin> set supported_activations"
    by (simp add: supported_activations_def)
  have b: "list_all (\<lambda>elem. elem \<in> set supported_metrics) [''Accuracy'']"
    by (simp add: supported_metrics_def)
  from init_unsupported_activation [OF a b, of 1 1 1 2 2 1 1 1 "''Gradient Descent''" "[0, 2]" "[0, 2]"]
  show ?thesis by blast
qed

text \<open>
  The claim has every later forward pass fail. An instance built with the name
  \<^verbatim>\<open>'swish'\<close> runs \<^verbatim>\<open>forward\<close> on a sample and returns the five arrays.
\<close>

theorem forward_without_activation_counterexample:
  "init 1 1 1 2 2 1 1 1 ''Gradient Descent'' ''swish'' [''Accuracy''] [0, 2] [0, 2] =
     ([UnsupportedActivation, AvailableActivations [''relu'', ''tanh'', ''sigmoid'']],
      Inr (example_net\<lparr> activation := None \<rparr>)) \<and>
   forward (example_net\<lparr> activation := None \<rparr>) (Matrix 1 [[1]])
       (w1 (example_net\<lparr> activation := None \<rparr>)) (w2 (example_net\<lparr> activation := None \<rparr>)) =
     Inr (Matrix 2 [[1, 1]], Matrix 1 [[1]], Matrix 1 [[1], [1]], Matrix 1 [[1]], Matrix 1 [[1]])"
  by (simp add: init_def initialize_weights_def reshape_def supported_activations_def
      supported_metrics_def example_net_def
      forward_def add_bias_unit_def transposed_def dot_def col_def
      nrows_def relu_def mmap_def softmax_def shifted_def amax_def bop_def bdim_def expand_def
      stretch_def row_vector_def sum_axis0_def Let_def upt_rec numeral_2_eq_2)

section \<open>Accuracy\<close>

lemma vsub_same_length: "length a = length b \<Longrightarrow> vsub a b = Inr (map2 (-) a b)"
  by (simp add: vsub_def bdim_def)

lemma length_filter_nth:
  "length (filter (\<lambda>i. P (xs ! i)) [0..<length xs]) = length (filter P xs)"
proof -
  have "length (filter P xs) = length (filter P (map (nth xs) [0..<length xs]))"
    by (simp add: map_nth)
  also have "\<dots> = length (filter (\<lambda>i. P (xs ! i)) [0..<length xs])"
    by (simp add: filter_map comp_def)
  finally show ?thesis by simp
qed

lemma mismatches_of_differences:
  "length (filter (\<lambda>d. d \<noteq> 0) (map2 (-) p (y :: int list))) =
   length (filter (\<lambda>b. \<not> b) (map2 (=) p y))"
  by (simp add: filter_map comp_def case_prod_unfold)

lemma bop_ncols: "bop f a b = Inr p \<Longrightarrow> ncols a = ncols b \<Longrightarrow> ncols p = ncols a"
  by (auto simp: bop_def bdim_def split: sum.splits if_splits)

lemma softmax_ncols: "softmax v = Inr a \<Longrightarrow> ncols a = ncols v"
  by (auto simp: softmax_def shifted_def Let_def row_vector_def sum_axis0_def
      split: sum.splits dest!: bop_ncols)

lemma forward_ncols:
  assumes "forward self X W1 W2 = Inr (a1, z2, a2, z3, a3)"
  shows "ncols a3 = nrows X"
proof -
  from forward_Inr [OF assms] obtain zl where
    a1: "a1 = add_bias_unit X True" and zl: "dot W1 (transposed a1) = Inr zl" "z2 = relu zl False"
    and a2: "a2 = add_bias_unit z2 False" and z3: "dot W2 a2 = Inr z3" and a3: "softmax z3 = Inr a3"
    by blast
  have "ncols zl = nrows X" using dot_Inr [OF zl(1)] a1 by (simp add: nrows_add_bias_unit)
  then have "ncols a2 = nrows X" using a2 zl(2) by (simp add: ncols_add_bias_unit)
  then have "ncols z3 = nrows X" using dot_Inr [OF z3] by simp
  then show ?thesis using softmax_ncols [OF a3] by simp
qed

lemma predict_length: "predict self X = Inr p \<Longrightarrow> length p = nrows X"
  by (auto simp: predict_def argmax_axis0_def forward_ncols split: sum.splits if_splits)

lemma predict_example:
  "predict example_net (Matrix 1 [[0], [5]]) = Inr [0, 0]"
  by (simp add: predict_def argmax_axis0_def argmax_list_def example_net_simps
      forward_def add_bias_unit_def transposed_def dot_def col_def
      nrows_def relu_def mmap_def softmax_def shifted_def amax_def bop_def bdim_def expand_def
      stretch_def row_vector_def sum_axis0_def Let_def upt_rec numeral_2_eq_2)

section \<open>Rounding to double precision\<close>

lemma two_powi_pos [simp]: "0 < (2::real) powi k"
  by (simp add: power_int_def)

lemma two_powi_add: "(2::real) powi (a + b) = 2 powi a * 2 powi b"
  by (simp add: power_int_add)

lemma two_powi_cancel: "(2::real) powi (52 - e) * 2 powi (e - 52) = 1"
  using two_powi_add [of "52 - e" "e - 52"] by simp

lemma two_powi_nonneg_int: "0 \<le> k \<Longrightarrow> (2::real) powi k = of_int (2 ^ nat k)"
  by (simp add: power_int_def)

lemma two_powr_int: "(2::real) powr real_of_int k = 2 powi k"
  by (simp add: powr_real_of_int')

lemma binade_eqI:
  assumes "2 powi k \<le> \<bar>x\<bar>" "\<bar>x\<bar> < 2 powi (k + 1)"
  shows "binade x = k"
proof -
  have pos: "0 < \<bar>x\<bar>" using assms(1) two_powi_pos [of k] by linarith
  have "2 powr real_of_int k \<le> \<bar>x\<bar> \<and> \<bar>x\<bar> < 2 powr (real_of_int k + 1)"
    using assms two_powr_int [of k] two_powr_int [of "k + 1"] by simp
  then show ?thesis
    unfolding binade_def using floor_log_eq_powr_iff [of "\<bar>x\<bar>" 2 k] pos by simp
qed

lemma binade_bounds:
  assumes "x \<noteq> 0"
  shows "2 powi binade x \<le> \<bar>x\<bar>" "\<bar>x\<bar> < 2 powi (binade x + 1)"
proof -
  have pos: "0 < \<bar>x\<bar>" using assms by simp
  have "2 powr real_of_int (binade x) \<le> \<bar>x\<bar> \<and> \<bar>x\<bar> < 2 powr (real_of_int (binade x) + 1)"
    using floor_log_eq_powr_iff [of "\<bar>x\<bar>" 2 "binade x"] pos by (simp add: binade_def)
  then show "2 powi binade x \<le> \<bar>x\<bar>" "\<bar>x\<bar> < 2 powi (binade x + 1)"
    using two_powr_int [of "binade x"] two_powr_int [of "binade x + 1"] by simp_all
qed

lemma binade_less:
  assumes "x \<noteq> 0" "\<bar>x\<bar> < 2 powi n"
  shows "binade x < n"
proof (rule ccontr)
  assume "\<not> binade x < n"
  then have "(2::real) powi n \<le> 2 powi binade x"
    by (intro power_int_increasing) simp_all
  then show False using binade_bounds(1) [OF assms(1)] assms(2) by linarith
qed

lemma round_half_even_of_int [simp]: "round_half_even (of_int k) = k"
  by (simp add: round_half_even_def)

lemma round_half_even_le: "x \<le> of_int b \<Longrightarrow> round_half_even x \<le> b"
proof -
  assume a: "x \<le> of_int b"
  have f: "\<lfloor>x\<rfloor> \<le> b" using a by (simp add: floor_le_iff)
  show ?thesis
  proof (cases "\<lfloor>x\<rfloor> = b")
    case True
    then have "x = of_int b" using a of_int_floor_le [of x] by linarith
    then show ?thesis by simp
  next
    case False
    then have "\<lfloor>x\<rfloor> + 1 \<le> b" using f by simp
    then show ?thesis by (simp add: round_half_even_def)
  qed
qed

lemma round_half_even_ge: "of_int a \<le> x \<Longrightarrow> a \<le> round_half_even x"
proof -
  assume "of_int a \<le> x"
  then have "a \<le> \<lfloor>x\<rfloor>" by (simp add: le_floor_iff)
  then show ?thesis by (simp add: round_half_even_def)
qed

lemma fl64_of_nat:
  assumes "n < 2 ^ 53"
  shows "fl64 (real n) = real n"
proof (cases "n = 0")
  case True
  then show ?thesis by (simp add: fl64_def)
next
  case False
  let ?x = "real n"
  let ?e = "binade ?x"
  have x0: "?x \<noteq> 0" using False by simp
  have "real n < 2 ^ 53" using assms by (metis of_nat_less_iff of_nat_numeral of_nat_power)
  then have "\<bar>?x\<bar> < 2 powi 53" by simp
  then have e: "?e < 53" by (rule binade_less [OF x0])
  then have p: "(2::real) powi (52 - ?e) = of_int (2 ^ nat (52 - ?e))"
    by (intro two_powi_nonneg_int) simp
  have "?x * 2 powi (52 - ?e) = of_int (int n * 2 ^ nat (52 - ?e))"
    by (simp add: p)
  then have "round_half_even (?x * 2 powi (52 - ?e)) = int n * 2 ^ nat (52 - ?e)"
    by (simp only: round_half_even_of_int)
  then have "fl64 ?x = of_int (int n * 2 ^ nat (52 - ?e)) * 2 powi (?e - 52)"
    using x0 by (simp add: fl64_def)
  also have "\<dots> = ?x * (2 powi (52 - ?e) * 2 powi (?e - 52))"
    by (simp add: p)
  finally show ?thesis by (simp only: two_powi_cancel mult_1_right)
qed

lemma fl64_range:
  assumes "0 \<le> x" "x \<le> 100"
  shows "0 \<le> fl64 x \<and> fl64 x \<le> 100"
proof (cases "x = 0")
  case True
  then show ?thesis by (simp add: fl64_def)
next
  case False
  let ?e = "binade x"
  let ?s = "(2::real) powi (52 - ?e)"
  let ?r = "round_half_even (x * ?s)"
  have "\<bar>x\<bar> < 2 powi 7" using assms by simp
  then have e: "?e < 7" by (rule binade_less [OF False])
  then have p: "?s = of_int (2 ^ nat (52 - ?e))"
    by (intro two_powi_nonneg_int) simp
  have fl: "fl64 x = of_int ?r * 2 powi (?e - 52)" using False by (simp add: fl64_def)
  have "of_int 0 \<le> x * ?s" using assms(1) by simp
  then have r0: "0 \<le> ?r" by (rule round_half_even_ge)
  have "x * ?s \<le> 100 * ?s" using assms(2) by simp
  also have "\<dots> = of_int (100 * 2 ^ nat (52 - ?e))" by (simp add: p)
  finally have "?r \<le> 100 * 2 ^ nat (52 - ?e)" by (rule round_half_even_le)
  then have "real_of_int ?r \<le> of_int (100 * 2 ^ nat (52 - ?e))" by (simp only: of_int_le_iff)
  also have "\<dots> = 100 * ?s" by (simp add: p)
  finally have "of_int ?r * 2 powi (?e - 52) \<le> 100 * ?s * 2 powi (?e - 52)"
    by (intro mult_right_mono) simp_all
  also have "\<dots> = 100 * (?s * 2 powi (?e - 52))" by simp
  finally have up: "fl64 x \<le> 100" using fl by (simp only: two_powi_cancel mult_1_right)
  have "0 \<le> of_int ?r * (2::real) powi (?e - 52)" using r0 by simp
  then show ?thesis using up fl by simp
qed

lemma fl64_eval:
  assumes "2 powi k \<le> \<bar>x\<bar>" "\<bar>x\<bar> < 2 powi (k + 1)"
  shows "fl64 x = of_int (round_half_even (x * 2 powi (52 - k))) * 2 powi (k - 52)"
proof -
  have "0 < \<bar>x\<bar>" using assms(1) two_powi_pos [of k] by linarith
  then have "x \<noteq> 0" by simp
  then show ?thesis using binade_eqI [OF assms] by (simp add: fl64_def)
qed

lemma count_diffs_count:
  "\<forall>i\<in>set js. i < length d \<Longrightarrow> n + length js < 2 ^ 53 \<Longrightarrow>
   count_diffs d js (real n) = Inr (real (n + length (filter (\<lambda>i. d ! i \<noteq> 0) js)))"
proof (induction js arbitrary: n)
  case Nil
  then show ?case by simp
next
  case (Cons i js)
  have f: "fl64 (real n + 1) = real (Suc n)"
    using fl64_of_nat [of "Suc n"] Cons.prems(2) by (simp add: add.commute)
  have "count_diffs d js (real (Suc n)) = Inr (real (Suc n + length (filter (\<lambda>i. d ! i \<noteq> 0) js)))"
    using Cons.prems by (intro Cons.IH) simp_all
  moreover have "count_diffs d js (real n) = Inr (real (n + length (filter (\<lambda>i. d ! i \<noteq> 0) js)))"
    using Cons.prems by (intro Cons.IH) simp_all
  ultimately show ?case using Cons.prems(1) f by simp
qed

lemma fl64_hundred_sixths: "fl64 (100 / 6) = 4691249611844267 / 2 ^ 48"
proof -
  have "fl64 (100 / 6) = of_int (round_half_even (100 / 6 * 2 powi (52 - 4))) * 2 powi (4 - 52)"
    by (rule fl64_eval) simp_all
  then show ?thesis by (simp add: round_half_even_def power_int_minus_divide)
qed

lemma fl64_code_side:
  "fl64 (100 - 4691249611844267 / 2 ^ 48) = 5864062014805333 / 2 ^ 46"
proof -
  have "fl64 (100 - 4691249611844267 / 2 ^ 48) =
      of_int (round_half_even ((100 - 4691249611844267 / 2 ^ 48) * 2 powi (52 - 6))) * 2 powi (6 - 52)"
    by (rule fl64_eval) simp_all
  then show ?thesis by (simp add: round_half_even_def power_int_minus_divide)
qed

lemma fl64_five_sixths: "fl64 (5 / 6) = 7505999378950827 / 2 ^ 53"
proof -
  have "fl64 (5 / 6) = of_int (round_half_even (5 / 6 * 2 powi (52 - (- 1)))) * 2 powi (- 1 - 52)"
    by (rule fl64_eval) simp_all
  then show ?thesis by (simp add: round_half_even_def power_int_minus_divide)
qed

lemma fl64_spec_side:
  "fl64 (100 * (7505999378950827 / 2 ^ 53)) = 5864062014805334 / 2 ^ 46"
proof -
  have "fl64 (100 * (7505999378950827 / 2 ^ 53)) =
      of_int (round_half_even (100 * (7505999378950827 / 2 ^ 53) * 2 powi (52 - 6))) * 2 powi (6 - 52)"
    by (rule fl64_eval) simp_all
  then show ?thesis by (simp add: round_half_even_def power_int_minus_divide)
qed

section \<open>The accuracy in double precision\<close>

lemma accuracy_value:
  assumes pr: "predict self X = Inr p" and n: "nrows X = length y" "0 < length y" "length y < 2 ^ 46"
  shows "accuracy self X y =
           Inr (fl64 (100 - fl64 (real (mismatches p y) * 100 / real (length y))))"
    and "mismatches p y \<le> length y"
    and "100 - real (mismatches p y) * 100 / real (length y) = 100 * mean_of (map2 (=) p y)"
proof -
  let ?N = "length y"
  let ?d = "map2 (-) p y"
  let ?b = "map2 (=) p y"
  let ?c = "mismatches p y"
  have len: "length p = ?N" using predict_length [OF pr] n(1) by simp
  then have lb: "length ?b = ?N" and ld: "length ?d = ?N" by simp_all
  have vs: "vsub p y = Inr ?d" using len by (rule vsub_same_length)
  have big: "(2::nat) ^ 46 \<le> 2 ^ 53" by simp
  have "count_diffs ?d [0..<?N] (real 0) = Inr (real (0 + length (filter (\<lambda>i. ?d ! i \<noteq> 0) [0..<?N])))"
    using ld n(3) big by (intro count_diffs_count) simp_all
  also have "length (filter (\<lambda>i. ?d ! i \<noteq> 0) [0..<?N]) = length (filter (\<lambda>d. d \<noteq> 0) ?d)"
    using length_filter_nth [of "\<lambda>d. d \<noteq> 0" ?d] ld by simp
  also have "\<dots> = ?c" unfolding mismatches_def by (rule mismatches_of_differences)
  finally have cnt: "count_diffs ?d [0..<?N] 0 = Inr (real ?c)" by simp
  have split: "length (filter (\<lambda>b. b) ?b) + ?c = ?N"
    unfolding mismatches_def using sum_length_filter_compl [of "\<lambda>b. b" ?b] lb by simp
  then show le: "?c \<le> ?N" by linarith
  have "?c * 100 < 2 ^ 46 * 100" using le n(3) by simp
  also have "(2::nat) ^ 46 * 100 \<le> 2 ^ 53" by simp
  finally have "fl64 (real (?c * 100)) = real (?c * 100)" by (rule fl64_of_nat)
  then have h: "fl64 (real ?c * 100) = real ?c * 100" by simp
  show "accuracy self X y = Inr (fl64 (100 - fl64 (real ?c * 100 / real ?N)))"
    using pr n(2) vs cnt h by (simp add: accuracy_def)
  have "real ?c = real ?N - real (length (filter (\<lambda>b. b) ?b))"
    using split by linarith
  then show "100 - real ?c * 100 / real ?N = 100 * mean_of ?b"
    using n(2) lb by (simp add: mean_of_def field_simps)
qed

lemma predict_six:
  "predict example_net (Matrix 1 [[0], [0], [0], [0], [0], [0]]) = Inr [0, 0, 0, 0, 0, 0]"
  by (simp add: predict_def argmax_axis0_def argmax_list_def example_net_simps
      forward_def add_bias_unit_def transposed_def dot_def col_def
      nrows_def relu_def mmap_def softmax_def shifted_def amax_def bop_def bdim_def expand_def
      stretch_def row_vector_def sum_axis0_def Let_def upt_rec numeral_2_eq_2)

text \<open>
  C7, as the code has it. Let \<open>y\<close> have as many labels as \<open>X\<close> has rows, at least one
  and fewer than \<open>2\<^sup>4\<^sup>6\<close>. When \<^verbatim>\<open>predict(X)\<close> returns \<open>p\<close>, \<^verbatim>\<open>accuracy(X, y)\<close> returns
  the double nearest to \<open>100 - d\<close>, where \<open>d\<close> is the double nearest to
  \<open>mismatches * 100 / N\<close>. In exact arithmetic \<open>100 - mismatches * 100 / N\<close> is
  \<open>100 * mean(p == y)\<close>. The value returned lies in \<open>[0, 100]\<close>. When \<^verbatim>\<open>predict(X)\<close>
  raises, \<^verbatim>\<open>accuracy(X, y)\<close> raises the same error.
\<close>

theorem accuracy_in_double_precision:
  assumes "nrows X = length y" "0 < length y" "length y < 2 ^ 46"
  shows "(\<forall>p. predict self X = Inr p \<longrightarrow>
            accuracy self X y =
              Inr (fl64 (100 - fl64 (real (mismatches p y) * 100 / real (length y)))) \<and>
            100 - real (mismatches p y) * 100 / real (length y) = 100 * mean_of (map2 (=) p y) \<and>
            0 \<le> fl64 (100 - fl64 (real (mismatches p y) * 100 / real (length y))) \<and>
            fl64 (100 - fl64 (real (mismatches p y) * 100 / real (length y))) \<le> 100) \<and>
         (\<forall>e. predict self X = Inl e \<longrightarrow> accuracy self X y = Inl e)"
proof (intro conjI allI impI)
  fix e assume "predict self X = Inl e"
  then show "accuracy self X y = Inl e" by (simp add: accuracy_def)
next
  fix p assume pr: "predict self X = Inr p"
  let ?q = "real (mismatches p y) * 100 / real (length y)"
  note v = accuracy_value [OF pr assms]
  show "accuracy self X y = Inr (fl64 (100 - fl64 ?q))" by (rule v(1))
  show "100 - ?q = 100 * mean_of (map2 (=) p y)" by (rule v(3))
  have "real (mismatches p y) \<le> real (length y)" using v(2) by simp
  then have q: "0 \<le> ?q" "?q \<le> 100"
    using assms(2) by (simp_all add: field_simps)
  then have "0 \<le> fl64 ?q \<and> fl64 ?q \<le> 100" by (rule fl64_range)
  then have "0 \<le> 100 - fl64 ?q" "100 - fl64 ?q \<le> 100" by simp_all
  then have r: "0 \<le> fl64 (100 - fl64 ?q) \<and> fl64 (100 - fl64 ?q) \<le> 100" by (rule fl64_range)
  show "0 \<le> fl64 (100 - fl64 ?q)" using r by simp
  show "fl64 (100 - fl64 ?q) \<le> 100" using r by simp
qed

theorem accuracy_in_double_precision_witness:
  "predict example_net (Matrix 1 [[0], [5]]) = Inr [0, 0] \<and>
   accuracy example_net (Matrix 1 [[0], [5]]) [0, 1] = Inr 50 \<and>
   predict example_net (Matrix 2 [[0, 0]]) = Inl ValueError \<and>
   accuracy example_net (Matrix 2 [[0, 0]]) [0] = Inl ValueError"
proof -
  have e: "predict example_net (Matrix 2 [[0, 0]]) = Inl ValueError"
    by (simp add: predict_def example_net_simps forward_def add_bias_unit_def transposed_def
        dot_def nrows_def)
  have f: "fl64 50 = 50" using fl64_of_nat [of 50] by simp
  have "accuracy example_net (Matrix 1 [[0], [5]]) [0, 1] = Inr 50"
    using accuracy_in_double_precision [of "Matrix 1 [[0], [5]]" "[0, 1]" example_net]
      predict_example
    by (simp add: nrows_def mismatches_def f)
  moreover have "accuracy example_net (Matrix 2 [[0, 0]]) [0] = Inl ValueError"
    using accuracy_in_double_precision [of "Matrix 2 [[0, 0]]" "[0]" example_net] e
    by (simp add: nrows_def)
  ultimately show ?thesis using predict_example e by simp
qed

text \<open>
  The claim has \<^verbatim>\<open>accuracy(X, y)\<close> equal \<open>100 * mean(predict(X) == y)\<close> exactly. With six
  samples and one mismatch the code returns \<open>5864062014805333 / 2\<^sup>4\<^sup>6\<close>
  (83.33333333333333), and \<open>100 * mean\<close>, computed in doubles as numpy does (the mean
  \<open>5 / 6\<close> rounded, then the product rounded), is \<open>5864062014805334 / 2\<^sup>4\<^sup>6\<close>
  (83.33333333333334).
\<close>

theorem accuracy_not_exactly_mean_counterexample:
  "predict example_net (Matrix 1 [[0], [0], [0], [0], [0], [0]]) = Inr [0, 0, 0, 0, 0, 0] \<and>
   accuracy example_net (Matrix 1 [[0], [0], [0], [0], [0], [0]]) [0, 0, 0, 0, 0, 1] =
     Inr (5864062014805333 / 2 ^ 46) \<and>
   fl64 (100 * fl64 (mean_of (map2 (=) [0, 0, 0, 0, 0, 0] [0, 0, 0, 0, 0, 1::int]))) =
     5864062014805334 / 2 ^ 46 \<and>
   accuracy example_net (Matrix 1 [[0], [0], [0], [0], [0], [0]]) [0, 0, 0, 0, 0, 1] \<noteq>
     Inr (fl64 (100 * fl64 (mean_of (map2 (=) [0, 0, 0, 0, 0, 0] [0, 0, 0, 0, 0, 1::int]))))"
proof -
  have q: "real (mismatches [0, 0, 0, 0, 0, 0] [0, 0, 0, 0, 0, 1]) * 100
             / real (length [0, 0, 0, 0, 0, 1::int]) = 100 / 6"
    by (simp add: mismatches_def)
  have "accuracy example_net (Matrix 1 [[0], [0], [0], [0], [0], [0]]) [0, 0, 0, 0, 0, 1] =
      Inr (fl64 (100 - fl64 (real (mismatches [0, 0, 0, 0, 0, 0] [0, 0, 0, 0, 0, 1]) * 100
             / real (length [0, 0, 0, 0, 0, 1::int]))))"
    by (rule accuracy_value(1) [OF predict_six]) (simp_all add: nrows_def)
  then have a: "accuracy example_net (Matrix 1 [[0], [0], [0], [0], [0], [0]]) [0, 0, 0, 0, 0, 1] =
      Inr (5864062014805333 / 2 ^ 46)"
    by (simp only: q fl64_hundred_sixths fl64_code_side)
  have "mean_of (map2 (=) [0, 0, 0, 0, 0, 0] [0, 0, 0, 0, 0, 1::int]) = 5 / 6"
    by (simp add: mean_of_def)
  then have b: "fl64 (100 * fl64 (mean_of (map2 (=) [0, 0, 0, 0, 0, 0] [0, 0, 0, 0, 0, 1::int]))) =
     5864062014805334 / 2 ^ 46"
    by (simp only: fl64_five_sixths fl64_spec_side)
  have c: "accuracy example_net (Matrix 1 [[0], [0], [0], [0], [0], [0]]) [0, 0, 0, 0, 0, 1] \<noteq>
     Inr (fl64 (100 * fl64 (mean_of (map2 (=) [0, 0, 0, 0, 0, 0] [0, 0, 0, 0, 0, 1::int]))))"
    unfolding a b by simp
  show ?thesis using predict_six a b c by (intro conjI)
qed

section \<open>Regularisation and the bias columns\<close>

lemma wf_drop_row0 [simp]: "wf_matrix m \<Longrightarrow> wf_matrix (drop_row0 m)"
  by (cases "rows m") (auto simp: drop_row0_def wf_matrix_def)

lemma nrows_drop_row0 [simp]: "nrows (drop_row0 m) = nrows m - 1"
  by (simp add: drop_row0_def nrows_def)

lemma ncols_drop_row0 [simp]: "ncols (drop_row0 m) = ncols m"
  by (simp add: drop_row0_def)

lemma iadd_same_shape:
  assumes "wf_matrix g" "wf_matrix u" "nrows g = nrows u" "ncols g = ncols u"
  shows "\<exists>s. iadd g u = Inr s \<and> wf_matrix s \<and> nrows s = nrows g \<and> ncols s = ncols g \<and>
           (\<forall>i<nrows g. \<forall>j<ncols g. entry s i j = entry g i j + entry u i j)"
proof -
  obtain s where s: "bop (+) g u = Inr s" "wf_matrix s" "nrows s = nrows g" "ncols s = ncols g"
    "\<forall>i<nrows g. \<forall>j<ncols g. entry s i j = entry g i j + entry u i j"
    using bop_same_shape_entries [OF assms, of "(+)"] by blast
  then have "iadd g u = Inr s" by (simp add: iadd_def)
  then show ?thesis using s by blast
qed

lemma iadd_cols_ok:
  assumes "wf_matrix g" "wf_matrix u" "nrows u = nrows g" "ncols u = ncols g - 1"
  shows "\<exists>r. iadd_cols g u = Inr r \<and> wf_matrix r \<and> nrows r = nrows g \<and> ncols r = ncols g \<and>
           (\<forall>i<nrows g. \<forall>j<ncols g. entry r i j =
              (if j = 0 then entry g i 0 else entry g i j + entry u i (j - 1)))"
proof -
  obtain s where s: "iadd (drop_col0 g) u = Inr s" "wf_matrix s" "nrows s = nrows g"
      "ncols s = ncols g - 1"
    and es: "\<forall>i<nrows g. \<forall>j<ncols g - 1. entry s i j = entry (drop_col0 g) i j + entry u i j"
    using iadd_same_shape [of "drop_col0 g" u] assms by auto
  let ?r = "Matrix (ncols g) (map2 (\<lambda>r t. take 1 r @ t) (rows g) (rows s))"
  have r: "iadd_cols g u = Inr ?r" using s(1) by (simp add: iadd_cols_def)
  have len: "length (rows s) = length (rows g)" using s(3) by (simp add: nrows_def)
  have row: "\<And>i. i < nrows g \<Longrightarrow> rows ?r ! i = take 1 (rows g ! i) @ rows s ! i"
    using len by (simp add: nrows_def)
  have lg: "\<And>i. i < nrows g \<Longrightarrow> length (rows g ! i) = ncols g"
    using assms(1) by (rule wf_row_length)
  have ls: "\<And>i. i < nrows g \<Longrightarrow> length (rows s ! i) = ncols g - 1"
    using wf_row_length [OF s(2)] s(3,4) by simp
  have nr: "nrows ?r = nrows g" using len by (simp add: nrows_def)
  have wf: "wf_matrix ?r"
    unfolding wf_matrix_def list_all_length
  proof (intro allI impI)
    fix i assume "i < length (rows ?r)"
    then have i: "i < nrows g" using nr by (simp add: nrows_def)
    show "length (rows ?r ! i) = ncols ?r"
      using row [OF i] lg [OF i] ls [OF i] by (cases "ncols g") simp_all
  qed
  have ent: "\<forall>i<nrows g. \<forall>j<ncols g. entry ?r i j =
              (if j = 0 then entry g i 0 else entry g i j + entry u i (j - 1))"
  proof (intro allI impI)
    fix i j assume i: "i < nrows g" and j: "j < ncols g"
    show "entry ?r i j = (if j = 0 then entry g i 0 else entry g i j + entry u i (j - 1))"
    proof (cases "j = 0")
      case True
      then show ?thesis using row [OF i] lg [OF i] j by (simp add: entry_def nth_append)
    next
      case False
      then have j1: "j - 1 < ncols g - 1" "Suc (j - 1) = j" using j by simp_all
      have "entry ?r i j = rows s ! i ! (j - 1)"
        using row [OF i] lg [OF i] j False by (simp add: entry_def nth_append)
      also have "\<dots> = entry (drop_col0 g) i (j - 1) + entry u i (j - 1)"
        using es i j1(1) by (simp add: entry_def)
      also have "entry (drop_col0 g) i (j - 1) = entry g i j"
        using entry_drop_col0 [OF assms(1) i j1(1)] j1(2) by simp
      finally show ?thesis using False by simp
    qed
  qed
  show ?thesis using r wf nr ent by (intro exI [of _ ?r]) simp
qed

lemma backprop_raw:
  assumes "activations_conform a1 a2 a3 z2 y_enc W1 W2"
  shows "\<exists>g1 g2. wf_matrix g1 \<and> nrows g1 = nrows W1 \<and> ncols g1 = ncols W1 \<and>
           wf_matrix g2 \<and> nrows g2 = nrows W2 \<and> ncols g2 = ncols W2 \<and>
           (\<forall>self. backprop self a1 a2 a3 z2 y_enc W1 W2 =
              (case iadd_cols g1 (mmap (\<lambda>x. x * l2 self) (drop_col0 W1)) of
                 Inl e \<Rightarrow> Inl e
               | Inr G1 \<Rightarrow>
                   (case iadd_cols g2 (mmap (\<lambda>x. x * l2 self) (drop_col0 W2)) of
                      Inl e \<Rightarrow> Inl e
                    | Inr G2 \<Rightarrow> Inr (G1, G2))))"
proof -
  note c = assms [unfolded activations_conform_def]
  obtain sigma3 where s3: "bop (-) a3 y_enc = Inr sigma3" "wf_matrix sigma3"
      "nrows sigma3 = nrows W2" "ncols sigma3 = nrows a1"
    using bop_same_shape_entries [of a3 y_enc "(-)"] c by auto
  obtain bck where bk: "dot (transposed W2) sigma3 = Inr bck"
    using dot_ok [of "transposed W2" sigma3] s3 by auto
  have bks: "wf_matrix bck" "nrows bck = ncols W2" "ncols bck = nrows a1"
    using dot_Inr [OF bk] s3 by simp_all
  let ?mask = "relu (add_bias_unit z2 False) True"
  have ms: "wf_matrix ?mask" "nrows ?mask = ncols W2" "ncols ?mask = nrows a1"
    using c by (simp_all add: nrows_add_bias_unit ncols_add_bias_unit)
  obtain sigma2 where s2: "bop (*) bck ?mask = Inr sigma2" "wf_matrix sigma2"
      "nrows sigma2 = ncols W2" "ncols sigma2 = nrows a1"
    using bop_same_shape_entries [of bck ?mask "(*)"] bks ms by auto
  obtain g1 where g1: "dot (drop_row0 sigma2) a1 = Inr g1"
    using dot_ok [of "drop_row0 sigma2" a1] s2 by auto
  have g1s: "wf_matrix g1" "nrows g1 = nrows W1" "ncols g1 = ncols W1"
    using dot_Inr [OF g1] s2 c by simp_all
  obtain g2 where g2: "dot sigma3 (transposed a2) = Inr g2"
    using dot_ok [of sigma3 "transposed a2"] s3 c by auto
  have g2s: "wf_matrix g2" "nrows g2 = nrows W2" "ncols g2 = ncols W2"
    using dot_Inr [OF g2] s3 c by simp_all
  have "\<forall>self. backprop self a1 a2 a3 z2 y_enc W1 W2 =
              (case iadd_cols g1 (mmap (\<lambda>x. x * l2 self) (drop_col0 W1)) of
                 Inl e \<Rightarrow> Inl e
               | Inr G1 \<Rightarrow>
                   (case iadd_cols g2 (mmap (\<lambda>x. x * l2 self) (drop_col0 W2)) of
                      Inl e \<Rightarrow> Inl e
                    | Inr G2 \<Rightarrow> Inr (G1, G2)))"
    using s3(1) bk s2(1) g1 g2 by (simp add: backprop_def Let_def)
  then show ?thesis using g1s g2s by blast
qed

lemma regularised_gradient:
  assumes "wf_matrix g" "wf_matrix W" "nrows g = nrows W" "ncols g = ncols W"
  shows "\<exists>G. iadd_cols g (mmap (\<lambda>x. x * lam) (drop_col0 W)) = Inr G \<and>
           wf_matrix G \<and> nrows G = nrows W \<and> ncols G = ncols W \<and>
           (\<forall>i<nrows W. \<forall>j<ncols W. entry G i j =
              (if j = 0 then entry g i 0 else entry g i j + lam * entry W i j))"
proof -
  let ?u = "mmap (\<lambda>x. x * lam) (drop_col0 W)"
  obtain G where G: "iadd_cols g ?u = Inr G" "wf_matrix G" "nrows G = nrows g" "ncols G = ncols g"
    and e: "\<forall>i<nrows g. \<forall>j<ncols g. entry G i j =
              (if j = 0 then entry g i 0 else entry g i j + entry ?u i (j - 1))"
    using iadd_cols_ok [of g ?u] assms by auto
  have "\<forall>i<nrows W. \<forall>j<ncols W. entry G i j =
              (if j = 0 then entry g i 0 else entry g i j + lam * entry W i j)"
  proof (intro allI impI)
    fix i j assume i: "i < nrows W" and j: "j < ncols W"
    show "entry G i j = (if j = 0 then entry g i 0 else entry g i j + lam * entry W i j)"
    proof (cases "j = 0")
      case True
      then show ?thesis using e i j assms(3,4) by simp
    next
      case False
      then have j1: "j - 1 < ncols W - 1" "Suc (j - 1) = j" using j by simp_all
      have "entry ?u i (j - 1) = entry (drop_col0 W) i (j - 1) * lam"
        using assms(2) i j1(1) by (simp add: entry_mmap)
      also have "entry (drop_col0 W) i (j - 1) = entry W i j"
        using entry_drop_col0 [OF assms(2) i j1(1)] j1(2) by simp
      finally show ?thesis using e i j assms(3,4) False by (simp add: mult.commute)
    qed
  qed
  then show ?thesis using G assms(3,4) by (intro exI [of _ G]) simp
qed

lemmas eval_defs =
  forward_def add_bias_unit_def transposed_def dot_def col_def
  nrows_def relu_def mmap_def softmax_def shifted_def amax_def bop_def bdim_def expand_def
  stretch_def row_vector_def sum_axis0_def Let_def upt_rec numeral_2_eq_2
  backprop_def iadd_cols_def iadd_def drop_col0_def drop_row0_def

lemma backprop_example:
  "backprop example_net (Matrix 2 [[1, 1]]) (Matrix 1 [[1], [1]]) (Matrix 1 [[1 / 2]]) (Matrix 1 [[1]])
     (Matrix 1 [[1]]) (Matrix 2 [[0, 1]]) (Matrix 2 [[0, 1]]) =
   Inr (Matrix 2 [[- 1 / 2, 3 / 2]], Matrix 2 [[- 1 / 2, 3 / 2]])"
  "backprop (example_net\<lparr> l2 := 0 \<rparr>) (Matrix 2 [[1, 1]]) (Matrix 1 [[1], [1]]) (Matrix 1 [[1 / 2]])
     (Matrix 1 [[1]]) (Matrix 1 [[1]]) (Matrix 2 [[0, 1]]) (Matrix 2 [[0, 1]]) =
   Inr (Matrix 2 [[- 1 / 2, - 1 / 2]], Matrix 2 [[- 1 / 2, - 1 / 2]])"
  by (simp_all add: eval_defs example_net_def)

text \<open>
  C9. For arguments of the documented shapes \<^verbatim>\<open>backprop\<close> returns gradients whose column
  0 is the column 0 of the gradients computed with \<open>l2 = 0\<close>, and whose other entries are
  those gradients plus \<open>l2\<close> times the weight. \<^verbatim>\<open>get_cost\<close> reads the weights only through
  \<^verbatim>\<open>w1[:, 1:]\<close> and \<^verbatim>\<open>w2[:, 1:]\<close>: weights that differ in column 0 alone have the same
  cost. No other function reads \<open>l2\<close>.
\<close>

theorem regularisation_skips_bias_columns:
  assumes "activations_conform a1 a2 a3 z2 y_enc W1 W2"
  shows "\<exists>g1 g2 h1 h2.
           backprop self a1 a2 a3 z2 y_enc W1 W2 = Inr (g1, g2) \<and>
           backprop (self\<lparr> l2 := 0 \<rparr>) a1 a2 a3 z2 y_enc W1 W2 = Inr (h1, h2) \<and>
           (\<forall>i<nrows W1. \<forall>j<ncols W1. entry g1 i j =
              (if j = 0 then entry h1 i 0 else entry h1 i j + l2 self * entry W1 i j)) \<and>
           (\<forall>i<nrows W2. \<forall>j<ncols W2. entry g2 i j =
              (if j = 0 then entry h2 i 0 else entry h2 i j + l2 self * entry W2 i j)) \<and>
           (\<forall>V1 V2. drop_col0 V1 = drop_col0 W1 \<and> drop_col0 V2 = drop_col0 W2 \<longrightarrow>
              get_cost self y_enc a3 V1 V2 = get_cost self y_enc a3 W1 W2)"
proof -
  note c = assms [unfolded activations_conform_def]
  obtain r1 r2 where r1: "wf_matrix r1" "nrows r1 = nrows W1" "ncols r1 = ncols W1"
    and r2: "wf_matrix r2" "nrows r2 = nrows W2" "ncols r2 = ncols W2"
    and bp: "\<And>self. backprop self a1 a2 a3 z2 y_enc W1 W2 =
              (case iadd_cols r1 (mmap (\<lambda>x. x * l2 self) (drop_col0 W1)) of
                 Inl e \<Rightarrow> Inl e
               | Inr G1 \<Rightarrow>
                   (case iadd_cols r2 (mmap (\<lambda>x. x * l2 self) (drop_col0 W2)) of
                      Inl e \<Rightarrow> Inl e
                    | Inr G2 \<Rightarrow> Inr (G1, G2)))"
    using backprop_raw [OF assms] by blast
  have w: "wf_matrix W1" "wf_matrix W2" using c by simp_all
  obtain g1 where g1: "iadd_cols r1 (mmap (\<lambda>x. x * l2 self) (drop_col0 W1)) = Inr g1"
    and e1: "\<forall>i<nrows W1. \<forall>j<ncols W1. entry g1 i j =
              (if j = 0 then entry r1 i 0 else entry r1 i j + l2 self * entry W1 i j)"
    using regularised_gradient [OF r1(1) w(1) r1(2,3), of "l2 self"] by blast
  obtain g2 where g2: "iadd_cols r2 (mmap (\<lambda>x. x * l2 self) (drop_col0 W2)) = Inr g2"
    and e2: "\<forall>i<nrows W2. \<forall>j<ncols W2. entry g2 i j =
              (if j = 0 then entry r2 i 0 else entry r2 i j + l2 self * entry W2 i j)"
    using regularised_gradient [OF r2(1) w(2) r2(2,3), of "l2 self"] by blast
  obtain h1 where h1: "iadd_cols r1 (mmap (\<lambda>x. x * 0) (drop_col0 W1)) = Inr h1"
    and f1: "\<forall>i<nrows W1. \<forall>j<ncols W1. entry h1 i j =
              (if j = 0 then entry r1 i 0 else entry r1 i j + 0 * entry W1 i j)"
    using regularised_gradient [OF r1(1) w(1) r1(2,3), of 0] by blast
  obtain h2 where h2: "iadd_cols r2 (mmap (\<lambda>x. x * 0) (drop_col0 W2)) = Inr h2"
    and f2: "\<forall>i<nrows W2. \<forall>j<ncols W2. entry h2 i j =
              (if j = 0 then entry r2 i 0 else entry r2 i j + 0 * entry W2 i j)"
    using regularised_gradient [OF r2(1) w(2) r2(2,3), of 0] by blast
  have b1: "backprop self a1 a2 a3 z2 y_enc W1 W2 = Inr (g1, g2)"
    using bp [of self] g1 g2 by simp
  have b0: "backprop (self\<lparr> l2 := 0 \<rparr>) a1 a2 a3 z2 y_enc W1 W2 = Inr (h1, h2)"
    using bp [of "self\<lparr> l2 := 0 \<rparr>"] h1 h2 by simp
  have c1: "\<forall>i<nrows W1. \<forall>j<ncols W1. entry g1 i j =
              (if j = 0 then entry h1 i 0 else entry h1 i j + l2 self * entry W1 i j)"
    using e1 f1 by auto
  have c2: "\<forall>i<nrows W2. \<forall>j<ncols W2. entry g2 i j =
              (if j = 0 then entry h2 i 0 else entry h2 i j + l2 self * entry W2 i j)"
    using e2 f2 by auto
  have gc: "\<forall>V1 V2. drop_col0 V1 = drop_col0 W1 \<and> drop_col0 V2 = drop_col0 W2 \<longrightarrow>
              get_cost self y_enc a3 V1 V2 = get_cost self y_enc a3 W1 W2"
    by (auto simp: get_cost_def Let_def cong: sum.case_cong)
  show ?thesis using b1 b0 c1 c2 gc by blast
qed

theorem regularisation_skips_bias_columns_witness:
  "\<exists>g1 g2 h1 h2.
     backprop example_net (Matrix 2 [[1, 1]]) (Matrix 1 [[1], [1]]) (Matrix 1 [[1 / 2]]) (Matrix 1 [[1]])
       (Matrix 1 [[1]]) (Matrix 2 [[0, 1]]) (Matrix 2 [[0, 1]]) = Inr (g1, g2) \<and>
     backprop (example_net\<lparr> l2 := 0 \<rparr>) (Matrix 2 [[1, 1]]) (Matrix 1 [[1], [1]]) (Matrix 1 [[1 / 2]])
       (Matrix 1 [[1]]) (Matrix 1 [[1]]) (Matrix 2 [[0, 1]]) (Matrix 2 [[0, 1]]) = Inr (h1, h2) \<and>
     g1 = Matrix 2 [[- 1 / 2, 3 / 2]] \<and> h1 = Matrix 2 [[- 1 / 2, - 1 / 2]] \<and>
     entry g1 0 0 = entry h1 0 0 \<and> entry g1 0 1 = entry h1 0 1 + 2 * 1 \<and>
     entry g2 0 0 = entry h2 0 0 \<and> entry g2 0 1 = entry h2 0 1 + 2 * 1"
proof -
  have c: "activations_conform (Matrix 2 [[1, 1]]) (Matrix 1 [[1], [1]]) (Matrix 1 [[1 / 2]])
             (Matrix 1 [[1]]) (Matrix 1 [[1]]) (Matrix 2 [[0, 1]]) (Matrix 2 [[0, 1]])"
    by (simp add: activations_conform_def wf_matrix_def nrows_def)
  from regularisation_skips_bias_columns [OF c, of example_net]
  obtain g1 g2 h1 h2 where
    b: "backprop example_net (Matrix 2 [[1, 1]]) (Matrix 1 [[1], [1]]) (Matrix 1 [[1 / 2]]) (Matrix 1 [[1]])
       (Matrix 1 [[1]]) (Matrix 2 [[0, 1]]) (Matrix 2 [[0, 1]]) = Inr (g1, g2)"
      "backprop (example_net\<lparr> l2 := 0 \<rparr>) (Matrix 2 [[1, 1]]) (Matrix 1 [[1], [1]]) (Matrix 1 [[1 / 2]])
       (Matrix 1 [[1]]) (Matrix 1 [[1]]) (Matrix 2 [[0, 1]]) (Matrix 2 [[0, 1]]) = Inr (h1, h2)"
    and e: "\<forall>i<nrows (Matrix 2 [[0, 1]]). \<forall>j<ncols (Matrix 2 [[0, 1]]). entry g1 i j =
              (if j = 0 then entry h1 i 0 else entry h1 i j + l2 example_net * entry (Matrix 2 [[0, 1]]) i j)"
      "\<forall>i<nrows (Matrix 2 [[0, 1]]). \<forall>j<ncols (Matrix 2 [[0, 1]]). entry g2 i j =
              (if j = 0 then entry h2 i 0 else entry h2 i j + l2 example_net * entry (Matrix 2 [[0, 1]]) i j)"
    by blast
  have v: "g1 = Matrix 2 [[- 1 / 2, 3 / 2]]" "h1 = Matrix 2 [[- 1 / 2, - 1 / 2]]"
    using b backprop_example by simp_all
  have "entry g1 0 0 = entry h1 0 0" "entry g1 0 1 = entry h1 0 1 + 2 * 1"
    "entry g2 0 0 = entry h2 0 0" "entry g2 0 1 = entry h2 0 1 + 2 * 1"
    using e by (simp_all add: nrows_def entry_def example_net_simps)
  then show ?thesis using b v by blast
qed

section \<open>The learning rate across epochs\<close>








lemmas fit_eval_defs =
  eval_defs fit_def fit_start_def encode_labels_def set_item_def zeros_def epoch_def
  decay_learning_rate_def array_split_def minibatch_step_def take_rows_def take_cols_def
  get_cost_def sum_all_def example_net_def






section \<open>The parameter update\<close>

lemma take_rows_Inr:
  assumes "take_rows m idx = Inr b" "wf_matrix m"
  shows "wf_matrix b \<and> nrows b = length idx \<and> ncols b = ncols m"
proof -
  have all: "list_all (\<lambda>i. i < nrows m) idx" and b: "b = Matrix (ncols m) (map (\<lambda>i. rows m ! i) idx)"
    using assms(1) by (auto simp: take_rows_def split: if_splits)
  have "wf_matrix b"
    unfolding b using all assms(2) wf_row_length [of m]
    by (intro wf_MatrixI) (auto simp: list_all_iff)
  then show ?thesis using b by (simp add: nrows_def)
qed

lemma take_cols_Inr:
  assumes "take_cols m idx = Inr b"
  shows "wf_matrix b \<and> nrows b = nrows m \<and> ncols b = length idx"
  using assms by (auto simp: take_cols_def nrows_def split: if_splits intro!: wf_MatrixI)

lemma softmax_Inr_pos: "softmax v = Inr a \<Longrightarrow> 0 < nrows v \<and> 0 < ncols v"
  by (auto simp: softmax_def shifted_def split: sum.splits dest: amax_Inr)

lemma forward_shapes:
  assumes f: "forward self X W1 W2 = Inr (a1, z2, a2, z3, a3)"
    and x: "wf_matrix X" "ncols W1 = ncols X + 1" "ncols W2 = nrows W1 + 1"
  shows "0 < nrows X \<and> 0 < nrows W2 \<and>
         wf_matrix a1 \<and> nrows a1 = nrows X \<and> ncols a1 = ncols X + 1 \<and>
         wf_matrix z2 \<and> nrows z2 = nrows W1 \<and> ncols z2 = nrows X \<and>
         wf_matrix a2 \<and> nrows a2 = nrows W1 + 1 \<and> ncols a2 = nrows X \<and>
         wf_matrix a3 \<and> nrows a3 = nrows W2 \<and> ncols a3 = nrows X"
proof -
  from forward_Inr [OF f] have z3: "dot W2 a2 = Inr z3" and a3: "softmax z3 = Inr a3"
    and a2: "a2 = add_bias_unit z2 False" by auto
  have "ncols a3 = nrows X" using f by (rule forward_ncols)
  then have "ncols z3 = nrows X" using softmax_ncols [OF a3] by simp
  then have pos: "0 < nrows X" "0 < nrows W2"
    using softmax_Inr_pos [OF a3] dot_Inr [OF z3] by simp_all
  from forward_ok [OF x pos, of self] f show ?thesis using pos by auto
qed

lemma backprop_shapes:
  assumes "activations_conform a1 a2 a3 z2 y_enc W1 W2"
    and "backprop self a1 a2 a3 z2 y_enc W1 W2 = Inr (g1, g2)"
  shows "wf_matrix g1 \<and> nrows g1 = nrows W1 \<and> ncols g1 = ncols W1 \<and>
         wf_matrix g2 \<and> nrows g2 = nrows W2 \<and> ncols g2 = ncols W2"
proof -
  note c = assms(1) [unfolded activations_conform_def]
  obtain r1 r2 where r1: "wf_matrix r1" "nrows r1 = nrows W1" "ncols r1 = ncols W1"
    and r2: "wf_matrix r2" "nrows r2 = nrows W2" "ncols r2 = ncols W2"
    and bp: "backprop self a1 a2 a3 z2 y_enc W1 W2 =
              (case iadd_cols r1 (mmap (\<lambda>x. x * l2 self) (drop_col0 W1)) of
                 Inl e \<Rightarrow> Inl e
               | Inr G1 \<Rightarrow>
                   (case iadd_cols r2 (mmap (\<lambda>x. x * l2 self) (drop_col0 W2)) of
                      Inl e \<Rightarrow> Inl e
                    | Inr G2 \<Rightarrow> Inr (G1, G2)))"
    using backprop_raw [OF assms(1)] by blast
  have w: "wf_matrix W1" "wf_matrix W2" using c by simp_all
  obtain G1 where G1: "iadd_cols r1 (mmap (\<lambda>x. x * l2 self) (drop_col0 W1)) = Inr G1"
      "wf_matrix G1" "nrows G1 = nrows W1" "ncols G1 = ncols W1"
    using regularised_gradient [OF r1(1) w(1) r1(2,3), of "l2 self"] by blast
  obtain G2 where G2: "iadd_cols r2 (mmap (\<lambda>x. x * l2 self) (drop_col0 W2)) = Inr G2"
      "wf_matrix G2" "nrows G2 = nrows W2" "ncols G2 = ncols W2"
    using regularised_gradient [OF r2(1) w(2) r2(2,3), of "l2 self"] by blast
  have "g1 = G1" "g2 = G2" using bp assms(2) G1(1) G2(1) by simp_all
  then show ?thesis using G1 G2 by simp
qed

lemma update_entries:
  assumes W: "wf_matrix W" and g: "wf_matrix g" "nrows g = nrows W" "ncols g = ncols W"
    and p: "wf_matrix p" "nrows p = nrows W" "ncols p = ncols W"
    and s: "bop (+) (mmap (\<lambda>x. lr * x) g) p = Inr step"
    and u: "iadd W (mmap uminus step) = Inr W'"
  shows "wf_matrix W' \<and> nrows W' = nrows W \<and> ncols W' = ncols W \<and>
         (\<forall>i<nrows W. \<forall>j<ncols W. entry W' i j = entry W i j - (lr * entry g i j + entry p i j))"
proof -
  let ?u = "mmap (\<lambda>x. lr * x) g"
  obtain s' where s': "bop (+) ?u p = Inr s'" "wf_matrix s'" "nrows s' = nrows W" "ncols s' = ncols W"
    and es: "\<forall>i<nrows W. \<forall>j<ncols W. entry s' i j = entry ?u i j + entry p i j"
    using bop_same_shape_entries [of ?u p "(+)"] g p by auto
  have st: "step = s'" using s s'(1) by simp
  obtain V where V: "iadd W (mmap uminus step) = Inr V" "wf_matrix V" "nrows V = nrows W"
      "ncols V = ncols W"
    and eV: "\<forall>i<nrows W. \<forall>j<ncols W. entry V i j = entry W i j + entry (mmap uminus step) i j"
    using iadd_same_shape [of W "mmap uminus step"] W s' st by auto
  have "V = W'" using u V(1) by simp
  moreover have "\<forall>i<nrows W. \<forall>j<ncols W. entry V i j = entry W i j - (lr * entry g i j + entry p i j)"
    using eV es st s'(2-4) g by (simp add: entry_mmap)
  ultimately show ?thesis using V by simp
qed

lemma minibatch_step_Inr:
  assumes "minibatch_step st X_data y_enc idx = Inr st'"
  shows "\<exists>X_batch y_batch a1 z2 a2 z3 a3 cost grad1 grad2 step1 step2 V1 V2.
           take_rows X_data idx = Inr X_batch \<and> take_cols y_enc idx = Inr y_batch \<and>
           forward (net st) X_batch (w1 (net st)) (w2 (net st)) = Inr (a1, z2, a2, z3, a3) \<and>
           get_cost (net st) y_batch a3 (w1 (net st)) (w2 (net st)) = Inr cost \<and>
           backprop (net st) a1 a2 a3 z2 y_batch (w1 (net st)) (w2 (net st)) = Inr (grad1, grad2) \<and>
           bop (+) (mmap (\<lambda>x. learning_rate (net st) * x) grad1) (prev_grad_w1 st) = Inr step1 \<and>
           iadd (w1 (net st)) (mmap uminus step1) = Inr V1 \<and>
           bop (+) (mmap (\<lambda>x. learning_rate (net st) * x) grad2) (prev_grad_w2 st) = Inr step2 \<and>
           iadd (w2 (net st)) (mmap uminus step2) = Inr V2 \<and>
           st' = \<lparr> net = (net st)\<lparr> w1 := V1, w2 := V2 \<rparr>,
                   prev_grad_w1 = mmap (\<lambda>x. learning_rate (net st) * x) grad1,
                   prev_grad_w2 = mmap (\<lambda>x. learning_rate (net st) * x) grad2,
                   costs = costs st @ [cost],
                   grad_1_li = grad_1_li st @ [grad1],
                   grad_2_li = grad_2_li st @ [grad2] \<rparr>"
  using assms by (auto simp: minibatch_step_def Let_def split: sum.splits prod.splits)

lemma minibatch_step_example:
  "\<exists>st'. minibatch_step (fit_start example_net) (Matrix 1 [[1]]) (Matrix 1 [[1]]) [0] = Inr st' \<and>
         w1 (net st') = Matrix 2 [[0, - 1]] \<and> w2 (net st') = Matrix 2 [[0, - 1]] \<and>
         prev_grad_w1 st' = Matrix 2 [[0, 2]] \<and> prev_grad_w2 st' = Matrix 2 [[0, 2]]"
  by (simp add: fit_eval_defs)

lemma minibatch_step_update:
  assumes "train_state_ok st" "wf_matrix X_data" "ncols (w1 (net st)) = ncols X_data + 1"
    and "nrows y_enc = nrows (w2 (net st))"
    and "minibatch_step st X_data y_enc idx = Inr st'"
  shows "\<exists>X_batch y_batch a1 z2 a2 z3 a3 grad1 grad2.
           take_rows X_data idx = Inr X_batch \<and> take_cols y_enc idx = Inr y_batch \<and>
           forward (net st) X_batch (w1 (net st)) (w2 (net st)) = Inr (a1, z2, a2, z3, a3) \<and>
           backprop (net st) a1 a2 a3 z2 y_batch (w1 (net st)) (w2 (net st)) = Inr (grad1, grad2) \<and>
           (\<forall>i<nrows (w1 (net st)). \<forall>j<ncols (w1 (net st)).
              entry (w1 (net st')) i j = entry (w1 (net st)) i j -
                (learning_rate (net st) * entry grad1 i j + entry (prev_grad_w1 st) i j) \<and>
              entry (prev_grad_w1 st') i j = learning_rate (net st) * entry grad1 i j) \<and>
           (\<forall>i<nrows (w2 (net st)). \<forall>j<ncols (w2 (net st)).
              entry (w2 (net st')) i j = entry (w2 (net st)) i j -
                (learning_rate (net st) * entry grad2 i j + entry (prev_grad_w2 st) i j) \<and>
              entry (prev_grad_w2 st') i j = learning_rate (net st) * entry grad2 i j) \<and>
           train_state_ok st' \<and>
           (\<forall>mini. run_minibatches st X_data y_enc (idx # mini) = run_minibatches st' X_data y_enc mini) \<and>
           (\<forall>k self'. decay_learning_rate (net st') k = Inr self' \<longrightarrow>
              w1 self' = w1 (net st') \<and> w2 self' = w2 (net st') \<and>
              prev_grad_w1 (st'\<lparr> net := self' \<rparr>) = prev_grad_w1 st' \<and>
              prev_grad_w2 (st'\<lparr> net := self' \<rparr>) = prev_grad_w2 st') \<and>
           (\<forall>self. prev_grad_w1 (fit_start self) = zeros (nrows (w1 self)) (ncols (w1 self)) \<and>
              prev_grad_w2 (fit_start self) = zeros (nrows (w2 self)) (ncols (w2 self)))"
proof -
  let ?W1 = "w1 (net st)" and ?W2 = "w2 (net st)" and ?lr = "learning_rate (net st)"
  note ok = assms(1) [unfolded train_state_ok_def]
  from minibatch_step_Inr [OF assms(5)]
  obtain X_batch y_batch a1 z2 a2 z3 a3 cost grad1 grad2 step1 step2 V1 V2 where
    xb: "take_rows X_data idx = Inr X_batch" and yb: "take_cols y_enc idx = Inr y_batch"
    and fw: "forward (net st) X_batch ?W1 ?W2 = Inr (a1, z2, a2, z3, a3)"
    and bp: "backprop (net st) a1 a2 a3 z2 y_batch ?W1 ?W2 = Inr (grad1, grad2)"
    and s1: "bop (+) (mmap (\<lambda>x. ?lr * x) grad1) (prev_grad_w1 st) = Inr step1"
    and u1: "iadd ?W1 (mmap uminus step1) = Inr V1"
    and s2: "bop (+) (mmap (\<lambda>x. ?lr * x) grad2) (prev_grad_w2 st) = Inr step2"
    and u2: "iadd ?W2 (mmap uminus step2) = Inr V2"
    and st': "st' = \<lparr> net = (net st)\<lparr> w1 := V1, w2 := V2 \<rparr>,
                   prev_grad_w1 = mmap (\<lambda>x. ?lr * x) grad1,
                   prev_grad_w2 = mmap (\<lambda>x. ?lr * x) grad2,
                   costs = costs st @ [cost],
                   grad_1_li = grad_1_li st @ [grad1],
                   grad_2_li = grad_2_li st @ [grad2] \<rparr>"
    by (elim exE conjE) (rule that)
  have xs: "wf_matrix X_batch" "nrows X_batch = length idx" "ncols X_batch = ncols X_data"
    using take_rows_Inr [OF xb assms(2)] by simp_all
  have ys: "wf_matrix y_batch" "nrows y_batch = nrows y_enc" "ncols y_batch = length idx"
    using take_cols_Inr [OF yb] by simp_all
  have fs: "wf_matrix a1" "nrows a1 = nrows X_batch" "ncols a1 = ncols X_batch + 1"
      "wf_matrix z2" "nrows z2 = nrows ?W1" "ncols z2 = nrows X_batch"
      "wf_matrix a2" "nrows a2 = nrows ?W1 + 1" "ncols a2 = nrows X_batch"
      "wf_matrix a3" "nrows a3 = nrows ?W2" "ncols a3 = nrows X_batch"
    using forward_shapes [OF fw xs(1)] assms(3) xs(3) ok by simp_all
  have conf: "activations_conform a1 a2 a3 z2 y_batch ?W1 ?W2"
    using fs ys xs ok assms(3,4) by (simp add: activations_conform_def)
  have gs: "wf_matrix grad1" "nrows grad1 = nrows ?W1" "ncols grad1 = ncols ?W1"
      "wf_matrix grad2" "nrows grad2 = nrows ?W2" "ncols grad2 = ncols ?W2"
    using backprop_shapes [OF conf bp] by simp_all
  have e1: "wf_matrix V1" "nrows V1 = nrows ?W1" "ncols V1 = ncols ?W1"
      "\<forall>i<nrows ?W1. \<forall>j<ncols ?W1. entry V1 i j =
         entry ?W1 i j - (?lr * entry grad1 i j + entry (prev_grad_w1 st) i j)"
    using update_entries [OF _ gs(1-3) _ _ _ s1 u1] ok by simp_all
  have e2: "wf_matrix V2" "nrows V2 = nrows ?W2" "ncols V2 = ncols ?W2"
      "\<forall>i<nrows ?W2. \<forall>j<ncols ?W2. entry V2 i j =
         entry ?W2 i j - (?lr * entry grad2 i j + entry (prev_grad_w2 st) i j)"
    using update_entries [OF _ gs(4-6) _ _ _ s2 u2] ok by simp_all
  have c1: "\<forall>i<nrows ?W1. \<forall>j<ncols ?W1.
              entry (w1 (net st')) i j = entry ?W1 i j -
                (?lr * entry grad1 i j + entry (prev_grad_w1 st) i j) \<and>
              entry (prev_grad_w1 st') i j = ?lr * entry grad1 i j"
    using e1(4) gs(1-3) by (simp add: st' entry_mmap)
  have c2: "\<forall>i<nrows ?W2. \<forall>j<ncols ?W2.
              entry (w2 (net st')) i j = entry ?W2 i j -
                (?lr * entry grad2 i j + entry (prev_grad_w2 st) i j) \<and>
              entry (prev_grad_w2 st') i j = ?lr * entry grad2 i j"
    using e2(4) gs(4-6) by (simp add: st' entry_mmap)
  have ok': "train_state_ok st'"
    using e1(1-3) e2(1-3) gs ok by (simp add: train_state_ok_def st')
  have thr: "\<forall>mini. run_minibatches st X_data y_enc (idx # mini) = run_minibatches st' X_data y_enc mini"
    using assms(5) by simp
  have dec: "\<forall>k self'. decay_learning_rate (net st') k = Inr self' \<longrightarrow>
              w1 self' = w1 (net st') \<and> w2 self' = w2 (net st') \<and>
              prev_grad_w1 (st'\<lparr> net := self' \<rparr>) = prev_grad_w1 st' \<and>
              prev_grad_w2 (st'\<lparr> net := self' \<rparr>) = prev_grad_w2 st'"
    by (auto simp: decay_learning_rate_def Let_def split: if_splits)
  have ini: "\<forall>self. prev_grad_w1 (fit_start self) = zeros (nrows (w1 self)) (ncols (w1 self)) \<and>
              prev_grad_w2 (fit_start self) = zeros (nrows (w2 self)) (ncols (w2 self))"
    by (simp add: fit_start_def)
  show ?thesis
    apply (rule exI [of _ X_batch], rule exI [of _ y_batch], rule exI [of _ a1])
    apply (rule exI [of _ z2], rule exI [of _ a2], rule exI [of _ z3], rule exI [of _ a3])
    apply (rule exI [of _ grad1], rule exI [of _ grad2])
    apply (intro conjI)
    apply (rule xb, rule yb, rule fw, rule bp, rule c1, rule c2, rule ok', rule thr, rule dec, rule ini)
    done
qed

subsection \<open>The whole run\<close>

lemma backprop_l2:
  "l2 s = l2 s' \<Longrightarrow> backprop s a1 a2 a3 z2 y_enc W1 W2 = backprop s' a1 a2 a3 z2 y_enc W1 W2"
  by (simp add: backprop_def Let_def cong: sum.case_cong)

lemma wf_sgd_update [simp]: "wf_matrix (sgd_update lr W g D)"
  by (simp add: sgd_update_def wf_matrix_def list_all_iff)

lemma nrows_sgd_update [simp]: "nrows (sgd_update lr W g D) = nrows W"
  by (simp add: sgd_update_def nrows_def)

lemma ncols_sgd_update [simp]: "ncols (sgd_update lr W g D) = ncols W"
  by (simp add: sgd_update_def)

lemma entry_sgd_update:
  "i < nrows W \<Longrightarrow> j < ncols W \<Longrightarrow>
   entry (sgd_update lr W g D) i j = entry W i j - (lr * entry g i j + entry D i j)"
  by (simp add: sgd_update_def entry_def)

lemma update_is_sgd_update:
  assumes W: "wf_matrix W" and g: "wf_matrix g" "nrows g = nrows W" "ncols g = ncols W"
    and p: "wf_matrix p" "nrows p = nrows W" "ncols p = ncols W"
    and s: "bop (+) (mmap (\<lambda>x. lr * x) g) p = Inr step"
    and u: "iadd W (mmap uminus step) = Inr W'"
  shows "W' = sgd_update lr W g p"
proof (rule matrix_eqI)
  note e = update_entries [OF W g p s u]
  show "wf_matrix W'" "nrows W' = nrows (sgd_update lr W g p)" "ncols W' = ncols (sgd_update lr W g p)"
    using e by simp_all
  show "wf_matrix (sgd_update lr W g p)" by simp
  fix i j assume "i < nrows W'" "j < ncols W'"
  then show "entry W' i j = entry (sgd_update lr W g p) i j"
    using e by (simp add: entry_sgd_update)
qed

lemma minibatch_step_refines:
  assumes inv: "run_invariant self X y_enc st" and x: "wf_matrix X"
    and step: "minibatch_step st X y_enc idx = Inr st'"
  shows "update_steps self X y_enc [(learning_rate (net st), idx)] (weights_and_deltas st) =
           Inr (weights_and_deltas st') \<and>
         run_invariant self X y_enc st' \<and>
         learning_rate (net st') = learning_rate (net st) \<and>
         decay_rate (net st') = decay_rate (net st) \<and>
         minibatch_size (net st') = minibatch_size (net st)"
proof -
  let ?W1 = "w1 (net st)" and ?W2 = "w2 (net st)" and ?lr = "learning_rate (net st)"
  note ok = inv [unfolded run_invariant_def train_state_ok_def]
  from minibatch_step_Inr [OF step]
  obtain X_batch y_batch a1 z2 a2 z3 a3 cost grad1 grad2 step1 step2 V1 V2 where
    xb: "take_rows X idx = Inr X_batch" and yb: "take_cols y_enc idx = Inr y_batch"
    and fw: "forward (net st) X_batch ?W1 ?W2 = Inr (a1, z2, a2, z3, a3)"
    and bp: "backprop (net st) a1 a2 a3 z2 y_batch ?W1 ?W2 = Inr (grad1, grad2)"
    and s1: "bop (+) (mmap (\<lambda>x. ?lr * x) grad1) (prev_grad_w1 st) = Inr step1"
    and u1: "iadd ?W1 (mmap uminus step1) = Inr V1"
    and s2: "bop (+) (mmap (\<lambda>x. ?lr * x) grad2) (prev_grad_w2 st) = Inr step2"
    and u2: "iadd ?W2 (mmap uminus step2) = Inr V2"
    and st': "st' = \<lparr> net = (net st)\<lparr> w1 := V1, w2 := V2 \<rparr>,
                   prev_grad_w1 = mmap (\<lambda>x. ?lr * x) grad1,
                   prev_grad_w2 = mmap (\<lambda>x. ?lr * x) grad2,
                   costs = costs st @ [cost],
                   grad_1_li = grad_1_li st @ [grad1],
                   grad_2_li = grad_2_li st @ [grad2] \<rparr>"
    by (elim exE conjE) (rule that)
  have xs: "wf_matrix X_batch" "nrows X_batch = length idx" "ncols X_batch = ncols X"
    using take_rows_Inr [OF xb x] by simp_all
  have ys: "wf_matrix y_batch" "nrows y_batch = nrows y_enc" "ncols y_batch = length idx"
    using take_cols_Inr [OF yb] by simp_all
  have fs: "wf_matrix a1" "nrows a1 = nrows X_batch" "ncols a1 = ncols X_batch + 1"
      "wf_matrix z2" "nrows z2 = nrows ?W1" "ncols z2 = nrows X_batch"
      "wf_matrix a2" "nrows a2 = nrows ?W1 + 1" "ncols a2 = nrows X_batch"
      "wf_matrix a3" "nrows a3 = nrows ?W2" "ncols a3 = nrows X_batch"
    using forward_shapes [OF fw xs(1)] xs(3) ok by simp_all
  have conf: "activations_conform a1 a2 a3 z2 y_batch ?W1 ?W2"
    using fs ys xs ok by (simp add: activations_conform_def)
  have gs: "wf_matrix grad1" "nrows grad1 = nrows ?W1" "ncols grad1 = ncols ?W1"
      "wf_matrix grad2" "nrows grad2 = nrows ?W2" "ncols grad2 = ncols ?W2"
    using backprop_shapes [OF conf bp] by simp_all
  have v1: "V1 = sgd_update ?lr ?W1 grad1 (prev_grad_w1 st)"
    using update_is_sgd_update [OF _ gs(1-3) _ _ _ s1 u1] ok by simp
  have v2: "V2 = sgd_update ?lr ?W2 grad2 (prev_grad_w2 st)"
    using update_is_sgd_update [OF _ gs(4-6) _ _ _ s2 u2] ok by simp
  have bg: "batch_gradients self X y_enc idx ?W1 ?W2 = Inr (grad1, grad2)"
    using xb yb fw bp forward_any_instance [of self X_batch ?W1 ?W2 "net st"]
      backprop_l2 [of self "net st" a1 a2 a3 z2 y_batch ?W1 ?W2] ok
    by (simp add: batch_gradients_def)
  have r: "update_steps self X y_enc [(?lr, idx)] (weights_and_deltas st) =
           Inr (weights_and_deltas st')"
    using bg by (simp add: weights_and_deltas_def st' v1 v2)
  have inv': "run_invariant self X y_enc st'"
    using ok gs by (simp add: run_invariant_def train_state_ok_def st' v1 v2)
  show ?thesis using r inv' by (simp add: st')
qed

lemma update_steps_append:
  "update_steps self X y_enc (xs @ ys) s =
     (case update_steps self X y_enc xs s of
        Inl e \<Rightarrow> Inl e
      | Inr s' \<Rightarrow> update_steps self X y_enc ys s')"
proof (induction xs arbitrary: s)
  case Nil
  then show ?case by simp
next
  case (Cons a xs)
  obtain lr idx where a: "a = (lr, idx)" by (cases a)
  obtain W1 W2 D1 D2 where s: "s = (W1, W2, D1, D2)" by (cases s)
  show ?case using Cons.IH by (simp add: a s split: sum.splits prod.splits)
qed

lemma run_minibatches_refines:
  assumes "run_invariant self X y_enc st" "wf_matrix X"
    and "run_minibatches st X y_enc mini = Inr st'"
  shows "update_steps self X y_enc (map (\<lambda>idx. (learning_rate (net st), idx)) mini)
           (weights_and_deltas st) = Inr (weights_and_deltas st') \<and>
         run_invariant self X y_enc st' \<and>
         learning_rate (net st') = learning_rate (net st) \<and>
         decay_rate (net st') = decay_rate (net st) \<and>
         minibatch_size (net st') = minibatch_size (net st)"
  using assms
proof (induction mini arbitrary: st)
  case Nil
  then show ?case by simp
next
  case (Cons idx mini)
  from Cons.prems(3) obtain st1 where s1: "minibatch_step st X y_enc idx = Inr st1"
    and r: "run_minibatches st1 X y_enc mini = Inr st'"
    by (auto split: sum.splits)
  note a = minibatch_step_refines [OF Cons.prems(1,2) s1]
  note b = Cons.IH [OF _ Cons.prems(2) r]
  have inv1: "run_invariant self X y_enc st1" using a by simp
  have "update_steps self X y_enc
          ([(learning_rate (net st), idx)] @ map (\<lambda>idx. (learning_rate (net st), idx)) mini)
          (weights_and_deltas st) = Inr (weights_and_deltas st')"
    using a b [OF inv1] by (simp only: update_steps_append) simp
  then show ?case using a b [OF inv1] by simp
qed

lemma epoch_refines:
  assumes inv: "run_invariant self X y_enc st" and x: "wf_matrix X"
    and ep: "epoch X y y_enc pp st i = Inr st'"
  shows "update_steps self X y_enc
           (map (\<lambda>idx. (learning_rate (net st) / (1 + decay_rate (net st) * real i), idx))
              (minibatches_of (length y) (minibatch_size (net st))))
           (weights_and_deltas st) = Inr (weights_and_deltas st') \<and>
         run_invariant self X y_enc st' \<and>
         learning_rate (net st') = learning_rate (net st) / (1 + decay_rate (net st) * real i) \<and>
         decay_rate (net st') = decay_rate (net st) \<and>
         minibatch_size (net st') = minibatch_size (net st)"
proof -
  from ep obtain self' mini where
    d: "decay_learning_rate (net st) i = Inr self'"
    and sp: "array_split (length y) (minibatch_size self') = Inr mini"
    and r: "run_minibatches (st\<lparr> net := self' \<rparr>) X y_enc mini = Inr st'"
    by (auto simp: epoch_def split: sum.splits if_splits)
  have s': "self' = (net st)\<lparr> learning_rate := learning_rate (net st) / (1 + decay_rate (net st) * real i) \<rparr>"
    using d by (auto simp: decay_learning_rate_def Let_def split: if_splits)
  let ?st = "st\<lparr> net := self' \<rparr>"
  have inv0: "run_invariant self X y_enc ?st"
    using inv by (simp add: run_invariant_def train_state_ok_def s')
  have wd: "weights_and_deltas ?st = weights_and_deltas st"
    by (simp add: weights_and_deltas_def s')
  have mb: "minibatches_of (length y) (minibatch_size (net st)) = mini"
    using sp by (simp add: minibatches_of_def s')
  note a = run_minibatches_refines [OF inv0 x r, unfolded wd]
  show ?thesis using a by (simp add: mb s')
qed

lemma schedule_Cons:
  "schedule lr d mini (i # es) =
     map (\<lambda>idx. (lr / (1 + d * real i), idx)) mini @ schedule (lr / (1 + d * real i)) d mini es"
  by (simp add: schedule_def)

lemma run_epochs_refines:
  assumes "run_invariant self X y_enc st" "wf_matrix X"
    and "run_epochs X y y_enc pp st es = Inr st'"
  shows "update_steps self X y_enc
           (schedule (learning_rate (net st)) (decay_rate (net st))
              (minibatches_of (length y) (minibatch_size (net st))) es)
           (weights_and_deltas st) = Inr (weights_and_deltas st')"
  using assms
proof (induction es arbitrary: st)
  case Nil
  then show ?case by (simp add: schedule_def)
next
  case (Cons i es)
  from Cons.prems(3) obtain st1 where e: "epoch X y y_enc pp st i = Inr st1"
    and r: "run_epochs X y y_enc pp st1 es = Inr st'"
    by (auto split: sum.splits)
  note a = epoch_refines [OF Cons.prems(1,2) e]
  have inv1: "run_invariant self X y_enc st1" using a by simp
  note b = Cons.IH [OF inv1 Cons.prems(2) r]
  show ?case
    using a b by (simp only: schedule_Cons update_steps_append) simp
qed

lemma set_item_shape: "set_item m r c v = Inr m' \<Longrightarrow> nrows m' = nrows m"
  by (auto simp: set_item_def Let_def nrows_def split: if_splits)

lemma encode_loop_nrows: "encode_loop y js m = Inr m' \<Longrightarrow> nrows m' = nrows m"
proof (induction js arbitrary: m)
  case Nil
  then show ?case by simp
next
  case (Cons i js)
  then show ?case by (auto split: sum.splits dest!: set_item_shape)
qed

lemma encode_labels_nrows: "encode_labels self y C = Inr y_enc \<Longrightarrow> nrows y_enc = C"
  using encode_loop_nrows [of y "[0..<length y]" "zeros C (length y)" y_enc]
  by (simp add: encode_labels_def)

text \<open>
  C5. During \<open>fit\<close>, every minibatch parameter update is
  \<open>W -= (learning_rate * grad + previous_step_delta)\<close>, where the previous step's delta is the
  unscaled \<open>learning_rate * grad\<close> saved by the previous minibatch step, zero matrices on the
  very first step, and no momentum coefficient is applied. Stated for the whole run:
  whenever \<open>fit\<close> returns, on weights, samples and labels of conforming shapes, the weights
  of the network it returns are those of the flat run \<open>update_steps\<close> over all minibatches of
  all epochs in order, started from the initial weights and zero deltas. In that run each
  step subtracts \<open>learning_rate * grad + delta\<close> from each weight and hands
  \<open>learning_rate * grad\<close> to the next step, also across the end of an epoch, and the
  learning rate of an epoch is the one before it divided by \<open>1 + decay_rate * epoch\<close>.
\<close>

theorem fit_update_rule:
  assumes "wf_matrix (w1 self)" "wf_matrix (w2 self)" "ncols (w2 self) = nrows (w1 self) + 1"
    and "wf_matrix X" "ncols (w1 self) = ncols X + 1" "n_output self = nrows (w2 self)"
    and "fit self X y pp = Inr trained"
  shows "\<exists>y_enc D1 D2.
           encode_labels self y (n_output self) = Inr y_enc \<and>
           update_steps self X y_enc
             (schedule (learning_rate self) (decay_rate self)
                (minibatches_of (length y) (minibatch_size self)) [0..<nat (epochs self)])
             (w1 self, w2 self,
              zeros (nrows (w1 self)) (ncols (w1 self)), zeros (nrows (w2 self)) (ncols (w2 self)))
           = Inr (w1 trained, w2 trained, D1, D2)"
proof -
  from assms(7) obtain y_enc st where
    enc: "encode_labels self y (n_output self) = Inr y_enc"
    and run: "run_epochs X y y_enc pp (fit_start self) [0..<nat (epochs self)] = Inr st"
    and tr: "trained = net st"
    by (auto simp: fit_def split: sum.splits)
  have ny: "nrows y_enc = nrows (w2 self)"
    using encode_labels_nrows [OF enc] assms(6) by simp
  have inv: "run_invariant self X y_enc (fit_start self)"
    using assms(1-5) ny by (simp add: run_invariant_def train_state_ok_def fit_start_def)
  have "update_steps self X y_enc
           (schedule (learning_rate (net (fit_start self))) (decay_rate (net (fit_start self)))
              (minibatches_of (length y) (minibatch_size (net (fit_start self)))) [0..<nat (epochs self)])
           (weights_and_deltas (fit_start self)) = Inr (weights_and_deltas st)"
    using inv assms(4) run by (rule run_epochs_refines)
  then have "update_steps self X y_enc
             (schedule (learning_rate self) (decay_rate self)
                (minibatches_of (length y) (minibatch_size self)) [0..<nat (epochs self)])
             (w1 self, w2 self,
              zeros (nrows (w1 self)) (ncols (w1 self)), zeros (nrows (w2 self)) (ncols (w2 self)))
           = Inr (w1 trained, w2 trained, prev_grad_w1 st, prev_grad_w2 st)"
    by (simp add: weights_and_deltas_def fit_start_def tr)
  then show ?thesis using enc by blast
qed

lemma fit_example:
  "\<exists>trained. fit example_net (Matrix 1 [[1]]) [0] False = Inr trained \<and>
     w1 trained = Matrix 2 [[0, - 2]] \<and> w2 trained = Matrix 2 [[0, - 2]]"
  by (simp add: fit_eval_defs)

lemma schedule_example:
  "schedule (learning_rate example_net) (decay_rate example_net)
     (minibatches_of (length [0::int]) (minibatch_size example_net)) [0..<nat (epochs example_net)] =
   [(1, [0]), (1 / 2, [0])]"
  by (simp add: schedule_def minibatches_of_def array_split_def example_net_def upt_rec)

text \<open>
  On the small instance, with one sample and two epochs, \<open>fit\<close> returns, and both weight
  rows end as \<open>[0, - 2]\<close>: the second step subtracts the delta saved in the first epoch.
\<close>

theorem fit_update_rule_witness:
  "\<exists>trained D1 D2.
     fit example_net (Matrix 1 [[1]]) [0] False = Inr trained \<and>
     w1 trained = Matrix 2 [[0, - 2]] \<and> w2 trained = Matrix 2 [[0, - 2]] \<and>
     update_steps example_net (Matrix 1 [[1]]) (Matrix 1 [[1]]) [(1, [0]), (1 / 2, [0])]
       (Matrix 2 [[0, 1]], Matrix 2 [[0, 1]], Matrix 2 [[0, 0]], Matrix 2 [[0, 0]])
     = Inr (w1 trained, w2 trained, D1, D2)"
proof -
  obtain trained where f: "fit example_net (Matrix 1 [[1]]) [0] False = Inr trained"
    and w: "w1 trained = Matrix 2 [[0, - 2]]" "w2 trained = Matrix 2 [[0, - 2]]"
    using fit_example by blast
  have h: "wf_matrix (w1 example_net)" "wf_matrix (w2 example_net)"
    "ncols (w2 example_net) = nrows (w1 example_net) + 1"
    "wf_matrix (Matrix 1 [[1]])" "ncols (w1 example_net) = ncols (Matrix 1 [[1]]) + 1"
    "n_output example_net = nrows (w2 example_net)"
    by (simp_all add: example_net_def wf_matrix_def nrows_def)
  have enc: "encode_labels example_net [0] (n_output example_net) = Inr (Matrix 1 [[1]])"
    by (simp add: encode_labels_def set_item_def zeros_def nrows_def example_net_def)
  from fit_update_rule [OF h f]
  obtain y_enc D1 D2 where
    e: "encode_labels example_net [0] (n_output example_net) = Inr y_enc"
    and u: "update_steps example_net (Matrix 1 [[1]]) y_enc
             (schedule (learning_rate example_net) (decay_rate example_net)
                (minibatches_of (length [0::int]) (minibatch_size example_net))
                [0..<nat (epochs example_net)])
             (w1 example_net, w2 example_net,
              zeros (nrows (w1 example_net)) (ncols (w1 example_net)),
              zeros (nrows (w2 example_net)) (ncols (w2 example_net)))
           = Inr (w1 trained, w2 trained, D1, D2)"
    by blast
  have y: "y_enc = Matrix 1 [[1]]" using e enc by simp
  have z: "zeros (nrows (w1 example_net)) (ncols (w1 example_net)) = Matrix 2 [[0, 0]]"
    "zeros (nrows (w2 example_net)) (ncols (w2 example_net)) = Matrix 2 [[0, 0]]"
    by (simp_all add: example_net_simps zeros_def nrows_def numeral_2_eq_2)
  have "update_steps example_net (Matrix 1 [[1]]) (Matrix 1 [[1]]) [(1, [0]), (1 / 2, [0])]
       (Matrix 2 [[0, 1]], Matrix 2 [[0, 1]], Matrix 2 [[0, 0]], Matrix 2 [[0, 0]])
     = Inr (w1 trained, w2 trained, D1, D2)"
    using u unfolding y schedule_example z by (simp only: example_net_simps)
  then show ?thesis using f w by blast
qed

end
